theory Spec2Isabelle
  imports Main "HOL-Library.Sublist"
begin

section \<open>Python strings\<close>

text \<open>
  The installer \<^verbatim>\<open>metronotescli/setup.py\<close> is modelled function by function. A Python
  \<^verbatim>\<open>str\<close> is a \<^typ>\<open>string\<close>; the code points the model can hold are those below 256.
  The string methods the source calls are written out here as Python defines them.
\<close>

text \<open>\<^verbatim>\<open>s.replace(old, new)\<close>: every non-overlapping occurrence, scanning from the left.\<close>

fun replace_from :: "string \<Rightarrow> string \<Rightarrow> string \<Rightarrow> string" where
  "replace_from old new [] = []"
| "replace_from old new (c # cs) =
     (if old \<noteq> [] \<and> prefix old (c # cs)
      then new @ replace_from old new (drop (length old) (c # cs))
      else c # replace_from old new cs)"

definition str_replace :: "string \<Rightarrow> string \<Rightarrow> string \<Rightarrow> string" where
  "str_replace s old new =
     (if old = [] then new @ concat (map (\<lambda>c. c # new) s) else replace_from old new s)"

text \<open>\<^verbatim>\<open>str.isspace\<close> on one character, for the code points below 256.\<close>

definition is_space :: "char \<Rightarrow> bool" where
  "is_space c = ((of_char c :: nat) \<in> {9, 10, 11, 12, 13, 28, 29, 30, 31, 32, 133, 160})"

definition str_strip :: "string \<Rightarrow> string" where
  "str_strip s = rev (dropWhile is_space (rev (dropWhile is_space s)))"

text \<open>\<^verbatim>\<open>s.split(sep)\<close> for a one-character separator: never the empty list.\<close>

fun str_split :: "char \<Rightarrow> string \<Rightarrow> string list" where
  "str_split sep [] = [[]]"
| "str_split sep (c # cs) =
     (if c = sep then [] # str_split sep cs
      else (case str_split sep cs of [] \<Rightarrow> [[c]] | w # ws \<Rightarrow> (c # w) # ws))"

text \<open>\<^verbatim>\<open>k, v = line.split('=', 1)\<close>: the text before and after the first separator.\<close>

definition split_first :: "char \<Rightarrow> string \<Rightarrow> string \<times> string" where
  "split_first sep s = (takeWhile (\<lambda>c. c \<noteq> sep) s, drop 1 (dropWhile (\<lambda>c. c \<noteq> sep) s))"

text \<open>\<^verbatim>\<open>sep.join(parts)\<close>.\<close>

fun str_join :: "string \<Rightarrow> string list \<Rightarrow> string" where
  "str_join sep [] = []"
| "str_join sep [p] = p"
| "str_join sep (p # q # ps) = p @ sep @ str_join sep (q # ps)"

text \<open>
  \<^verbatim>\<open>s.lower()\<close> on the ASCII letters; the other characters are kept. The source compares
  the result with \<^verbatim>\<open>'y'\<close> only, and no character but \<^verbatim>\<open>Y\<close> lowers to \<^verbatim>\<open>y\<close>.
\<close>

definition lower_char :: "char \<Rightarrow> char" where
  "lower_char c =
     (case map_of (zip ''ABCDEFGHIJKLMNOPQRSTUVWXYZ'' ''abcdefghijklmnopqrstuvwxyz'') c of
        Some d \<Rightarrow> d
      | None \<Rightarrow> c)"

definition str_lower :: "string \<Rightarrow> string" where
  "str_lower s = map lower_char s"

section \<open>Paths: \<^verbatim>\<open>os.path\<close> on a POSIX host\<close>

text \<open>
  The model fixes \<^verbatim>\<open>os.path\<close> to \<^verbatim>\<open>posixpath\<close>, the module a POSIX host gives it. Each
  function follows the standard library's definition.
\<close>

definition isabs :: "string \<Rightarrow> bool" where
  "isabs p = prefix ''/'' p"

text \<open>\<^verbatim>\<open>os.path.join(a, b)\<close>: an absolute \<open>b\<close> replaces \<open>a\<close>.\<close>

definition os_path_join :: "string \<Rightarrow> string \<Rightarrow> string" where
  "os_path_join a b =
     (if isabs b then b
      else if a = [] \<or> last a = CHR ''/'' then a @ b
      else a @ ''/'' @ b)"

text \<open>
  \<^verbatim>\<open>os.path.normpath\<close>: empty and \<^verbatim>\<open>.\<close> components are dropped, \<^verbatim>\<open>..\<close> pops the component
  before it; exactly two leading slashes are kept, three or more are one.
\<close>

definition initial_slashes :: "string \<Rightarrow> nat" where
  "initial_slashes p =
     (if prefix ''/'' p then (if prefix ''//'' p \<and> \<not> prefix ''///'' p then 2 else 1) else 0)"

definition norm_step :: "nat \<Rightarrow> string list \<Rightarrow> string \<Rightarrow> string list" where
  "norm_step init new_comps part =
     (if part = [] \<or> part = ''.'' then new_comps
      else if part = ''..''
      then (if (init = 0 \<and> new_comps = []) \<or> (new_comps \<noteq> [] \<and> last new_comps = ''..'')
            then new_comps @ [part]
            else if new_comps \<noteq> [] then butlast new_comps else new_comps)
      else new_comps @ [part])"

definition normpath :: "string \<Rightarrow> string" where
  "normpath p =
     (if p = [] then ''.''
      else let init = initial_slashes p;
               comps = foldl (norm_step init) [] (str_split CHR ''/'' p);
               q = replicate init CHR ''/'' @ str_join ''/'' comps
           in if q = [] then ''.'' else q)"

text \<open>\<^verbatim>\<open>os.path.abspath(p)\<close>, with the working directory \<open>cwd\<close> that \<^verbatim>\<open>os.getcwd()\<close> returns.\<close>

definition abspath :: "string \<Rightarrow> string \<Rightarrow> string" where
  "abspath cwd p = normpath (if isabs p then p else os_path_join cwd p)"

text \<open>
  \<^verbatim>\<open>os.path.split(p)\<close>: the text up to the last slash, with its trailing slashes removed
  unless it is slashes only, and the text after the last slash.
\<close>

definition rstrip_slash :: "string \<Rightarrow> string" where
  "rstrip_slash s = rev (dropWhile (\<lambda>c. c = CHR ''/'') (rev s))"

definition path_tail :: "string \<Rightarrow> string" where
  "path_tail p = rev (takeWhile (\<lambda>c. c \<noteq> CHR ''/'') (rev p))"

definition path_head :: "string \<Rightarrow> string" where
  "path_head p =
     (let h = rev (dropWhile (\<lambda>c. c \<noteq> CHR ''/'') (rev p))
      in if rstrip_slash h = [] then h else rstrip_slash h)"

definition os_path_split :: "string \<Rightarrow> string \<times> string" where
  "os_path_split p = (path_head p, path_tail p)"

definition dirname :: "string \<Rightarrow> string" where
  "dirname p = path_head p"

text \<open>
  \<^verbatim>\<open>os.path.commonprefix([a, b])\<close>: the longest common prefix of the two strings, character
  by character. It knows nothing of path components.
\<close>

fun commonprefix :: "string \<Rightarrow> string \<Rightarrow> string" where
  "commonprefix (x # xs) (y # ys) = (if x = y then x # commonprefix xs ys else [])"
| "commonprefix _ _ = []"

section \<open>Values, errors and the file system\<close>

text \<open>
  A configuration value is a string, a boolean, an integer, \<^verbatim>\<open>None\<close>, or a number of type
  \<^verbatim>\<open>float\<close> or \<^verbatim>\<open>Decimal\<close>. The source only ever prints a number, so a number is given by
  the two texts Python prints for it: \<^verbatim>\<open>str(x)\<close> and \<^verbatim>\<open>format(x, '.8f')\<close>.
\<close>

datatype pyvalue =
    PNone
  | PBool bool
  | PInt int
  | PNum (num_str: string) (num_fixed8: string)
  | PStr string

function str_nat :: "nat \<Rightarrow> string" where
  "str_nat n =
     (if n < 10 then [''0123456789'' ! n]
      else str_nat (n div 10) @ [''0123456789'' ! (n mod 10)])"
  by pat_completeness auto
termination
  by (relation "measure id") auto

definition str_int :: "int \<Rightarrow> string" where
  "str_int i = (if i < 0 then CHR ''-'' # str_nat (nat (- i)) else str_nat (nat i))"

text \<open>\<^verbatim>\<open>'{}'.format(v)\<close>.\<close>

fun py_str :: "pyvalue \<Rightarrow> string" where
  "py_str PNone = ''None''"
| "py_str (PBool b) = (if b then ''True'' else ''False'')"
| "py_str (PInt i) = str_int i"
| "py_str (PNum r f) = r"
| "py_str (PStr t) = t"

type_synonym config = "string \<rightharpoonup> pyvalue"

text \<open>
  The exceptions the modelled code can raise. \<open>PathTraversal\<close> is the source's
  \<^verbatim>\<open>Exception("Attempted Path Traversal in Tar File")\<close>; \<open>LibraryError\<close> is any exception of a
  library call whose behaviour the model takes as a parameter.
\<close>

datatype error =
    PathTraversal
  | KeyError string
  | IndexError
  | EOFError
  | FileExistsError string
  | FileNotFoundError string
  | NotADirectoryError string
  | IsADirectoryError string
  | LibraryError string

text \<open>
  The file system maps an absolute, normalised path to a file (its text and mode) or a
  directory (its mode). There are no symbolic links and no permission checks, and a mode
  is the one the call asked for (the process's umask is not applied). The text of a file
  is what Python reads from it in text mode. Console output is not part of the state.
\<close>

datatype node = File (content: string) (fmode: nat) | Dir (dmode: nat)

record state =
  cwd :: string
  fs :: "string \<rightharpoonup> node"
  stdin :: "string list"
  urandom_calls :: nat

type_synonym 'a io = "state \<Rightarrow> (error + 'a) \<times> state"

text \<open>Sequencing: an exception ends the computation and keeps the state reached.\<close>

definition and_then :: "(error + 'a) \<times> state \<Rightarrow> ('a \<Rightarrow> 'b io) \<Rightarrow> (error + 'b) \<times> state" where
  "and_then r f = (case r of (Inl e, s) \<Rightarrow> (Inl e, s) | (Inr x, s) \<Rightarrow> f x s)"

text \<open>A mode written in octal: \<open>octal [7, 5, 5]\<close> is Python's \<^verbatim>\<open>0o755\<close>.\<close>

definition octal :: "nat list \<Rightarrow> nat" where
  "octal ds = foldl (\<lambda>a d. 8 * a + d) 0 ds"

definition os_path_exists :: "state \<Rightarrow> string \<Rightarrow> bool" where
  "os_path_exists s p = (p \<noteq> [] \<and> fs s (abspath (cwd s) p) \<noteq> None)"

definition os_mkdir :: "string \<Rightarrow> nat \<Rightarrow> unit io" where
  "os_mkdir p mode s =
     (if p = [] then (Inl (FileNotFoundError p), s)
      else if fs s (abspath (cwd s) p) \<noteq> None then (Inl (FileExistsError p), s)
      else (case fs s (dirname (abspath (cwd s) p)) of
              None \<Rightarrow> (Inl (FileNotFoundError p), s)
            | Some (File t m) \<Rightarrow> (Inl (NotADirectoryError p), s)
            | Some (Dir m) \<Rightarrow> (Inr (), s\<lparr>fs := (fs s)(abspath (cwd s) p \<mapsto> Dir mode)\<rparr>)))"

text \<open>
  \<^verbatim>\<open>os.makedirs(name, mode)\<close>: the missing ancestors first, with the default mode
  \<^verbatim>\<open>0o777\<close>, then the directory itself with \<open>mode\<close>. An ancestor that turns out to exist is
  not an error; a name ending in \<^verbatim>\<open>/.\<close> needs no directory of its own.
\<close>

definition makedirs_head :: "string \<Rightarrow> string" where
  "makedirs_head name = (if path_tail name = [] then path_head (path_head name) else path_head name)"

definition makedirs_tail :: "string \<Rightarrow> string" where
  "makedirs_tail name = (if path_tail name = [] then path_tail (path_head name) else path_tail name)"

lemma length_rstrip_slash: "length (rstrip_slash h) \<le> length h"
  using length_dropWhile_le [of "\<lambda>c. c = CHR ''/''" "rev h"] by (simp add: rstrip_slash_def)

lemma length_path_head_raw:
  "length (rev (dropWhile (\<lambda>c. c \<noteq> CHR ''/'') (rev p))) \<le> length p"
  using length_dropWhile_le [of "\<lambda>c. c \<noteq> CHR ''/''" "rev p"] by simp

lemma length_path_head: "length (path_head p) \<le> length p"
proof (cases "rstrip_slash (rev (dropWhile (\<lambda>c. c \<noteq> CHR ''/'') (rev p))) = []")
  case True
  then show ?thesis
    using length_path_head_raw [of p] by (simp add: path_head_def)
next
  case False
  then show ?thesis
    using length_path_head_raw [of p]
      length_rstrip_slash [of "rev (dropWhile (\<lambda>c. c \<noteq> CHR ''/'') (rev p))"]
    by (simp add: path_head_def)
qed

lemma length_path_head_less:
  assumes "path_tail p \<noteq> []"
  shows "length (path_head p) < length p"
proof -
  let ?P = "\<lambda>c. c \<noteq> CHR ''/''"
  let ?h = "rev (dropWhile ?P (rev p))"
  have "takeWhile ?P (rev p) @ dropWhile ?P (rev p) = rev p"
    by (rule takeWhile_dropWhile_id)
  then have "length (takeWhile ?P (rev p)) + length (dropWhile ?P (rev p)) = length (rev p)"
    by (metis length_append)
  then have sum: "length (takeWhile ?P (rev p)) + length ?h = length p"
    by simp
  have pos: "0 < length (takeWhile ?P (rev p))"
    using assms by (simp add: path_tail_def)
  have less: "length ?h < length p"
    using sum pos by linarith
  show ?thesis
  proof (cases "rstrip_slash ?h = []")
    case True
    then show ?thesis using less by (simp add: path_head_def)
  next
    case False
    then show ?thesis
      using less length_rstrip_slash [of ?h] by (simp add: path_head_def)
  qed
qed

lemma length_makedirs_head:
  assumes "makedirs_tail name \<noteq> []"
  shows "length (makedirs_head name) < length name"
proof (cases "path_tail name = []")
  case True
  then have "path_tail (path_head name) \<noteq> []"
    using assms by (simp add: makedirs_tail_def)
  then have "length (path_head (path_head name)) < length (path_head name)"
    by (rule length_path_head_less)
  then show ?thesis
    using True length_path_head [of name] by (simp add: makedirs_head_def)
next
  case False
  then show ?thesis
    by (simp add: makedirs_head_def length_path_head_less)
qed

function makedirs :: "string \<Rightarrow> nat \<Rightarrow> unit io" where
  "makedirs name mode s =
     (if makedirs_head name \<noteq> [] \<and> makedirs_tail name \<noteq> []
         \<and> \<not> os_path_exists s (makedirs_head name)
      then (case makedirs (makedirs_head name) (octal [7, 7, 7]) s of
              (Inl (FileExistsError q), s1) \<Rightarrow>
                (if makedirs_tail name = ''.'' then (Inr (), s1) else os_mkdir name mode s1)
            | (Inl e, s1) \<Rightarrow> (Inl e, s1)
            | (Inr u, s1) \<Rightarrow>
                (if makedirs_tail name = ''.'' then (Inr (), s1) else os_mkdir name mode s1))
      else os_mkdir name mode s)"
  by pat_completeness auto
termination
  by (relation "measure (\<lambda>(name, mode, s). length name)") (auto simp: length_makedirs_head)

text \<open>
  \<^verbatim>\<open>open(p, 'w')\<close>, writing \<open>text\<close> and closing: an existing file keeps its mode, a new one
  gets the default \<^verbatim>\<open>0o666\<close>.
\<close>

definition write_file :: "string \<Rightarrow> string \<Rightarrow> unit io" where
  "write_file p text s =
     (if p = [] then (Inl (FileNotFoundError p), s)
      else (case fs s (abspath (cwd s) p) of
              Some (Dir m) \<Rightarrow> (Inl (IsADirectoryError p), s)
            | Some (File t m) \<Rightarrow> (Inr (), s\<lparr>fs := (fs s)(abspath (cwd s) p \<mapsto> File text m)\<rparr>)
            | None \<Rightarrow>
                (case fs s (dirname (abspath (cwd s) p)) of
                   None \<Rightarrow> (Inl (FileNotFoundError p), s)
                 | Some (File t m) \<Rightarrow> (Inl (NotADirectoryError p), s)
                 | Some (Dir m) \<Rightarrow>
                     (Inr (), s\<lparr>fs := (fs s)(abspath (cwd s) p \<mapsto> File text (octal [6, 6, 6]))\<rparr>))))"

definition os_chmod :: "string \<Rightarrow> nat \<Rightarrow> unit io" where
  "os_chmod p mode s =
     (if p = [] then (Inl (FileNotFoundError p), s)
      else (case fs s (abspath (cwd s) p) of
              None \<Rightarrow> (Inl (FileNotFoundError p), s)
            | Some (File t m) \<Rightarrow> (Inr (), s\<lparr>fs := (fs s)(abspath (cwd s) p \<mapsto> File t mode)\<rparr>)
            | Some (Dir m) \<Rightarrow> (Inr (), s\<lparr>fs := (fs s)(abspath (cwd s) p \<mapsto> Dir mode)\<rparr>)))"

definition os_remove :: "string \<Rightarrow> unit io" where
  "os_remove p s =
     (if p = [] then (Inl (FileNotFoundError p), s)
      else (case fs s (abspath (cwd s) p) of
              None \<Rightarrow> (Inl (FileNotFoundError p), s)
            | Some (Dir m) \<Rightarrow> (Inl (IsADirectoryError p), s)
            | Some (File t m) \<Rightarrow> (Inr (), s\<lparr>fs := (fs s)(abspath (cwd s) p := None)\<rparr>)))"

section \<open>The host: what the installer reads from outside its own source\<close>

text \<open>
  One schema entry of \<^verbatim>\<open>CONFIG_ARGS\<close>: the tuple of flag names and the dictionary of keyword
  arguments (\<^verbatim>\<open>'help'\<close>, \<^verbatim>\<open>'default'\<close>, ...), as \<^verbatim>\<open>arg[0]\<close> and \<^verbatim>\<open>arg[1]\<close>.
\<close>

type_synonym config_arg = "string list \<times> (string \<rightharpoonup> pyvalue)"

text \<open>
  The host collects the values and library calls that are not defined in
  \<^verbatim>\<open>setup.py\<close>: the platform and environment, the directories \<^verbatim>\<open>appdirs\<close> returns, the two
  argument schemas of the client and server modules, the parser of \<^verbatim>\<open>configparser\<close> (the
  sections of a text, each with the keys and values its section proxy yields),
  \<^verbatim>\<open>os.urandom\<close> (by call number and length), \<^verbatim>\<open>util.dhash\<close> and \<^verbatim>\<open>util.hexlify\<close> of the
  library, the bodies served at each URL, the member names \<^verbatim>\<open>tarfile\<close> finds in an archive,
  and \<^verbatim>\<open>TarFile.extractall\<close> and \<^verbatim>\<open>shutil.move\<close>.
\<close>

record host =
  platform_system :: string
  environ :: "string \<rightharpoonup> string"
  userhome :: "string option"
  old_appdir :: string
  configdir :: string
  data_dir :: string
  APP_NAME :: string
  SERVER_CONFIG_ARGS :: "config_arg list"
  CLIENT_CONFIG_ARGS :: "config_arg list"
  configparser_read :: "string \<Rightarrow> (string \<rightharpoonup> (string \<times> string) list) option"
  urandom :: "nat \<Rightarrow> nat \<Rightarrow> nat list"
  dhash :: "nat list \<Rightarrow> nat list"
  hexlify :: "nat list \<Rightarrow> string"
  url_body :: "string \<rightharpoonup> string"
  tar_members :: "string \<Rightarrow> string list option"
  extractall :: "string \<Rightarrow> string \<Rightarrow> unit io"
  shutil_move :: "string \<Rightarrow> string \<Rightarrow> unit io"

text \<open>
  \<^verbatim>\<open>os.path.expanduser\<close>: a leading \<^verbatim>\<open>~\<close> becomes the home directory without its trailing
  slashes. Without a home directory, and for \<^verbatim>\<open>~name\<close>, the path is returned as it is.
\<close>

definition expanduser :: "host \<Rightarrow> string \<Rightarrow> string" where
  "expanduser h p =
     (if \<not> prefix ''~'' p then p
      else if takeWhile (\<lambda>c. c \<noteq> CHR ''/'') (drop 1 p) \<noteq> [] then p
      else (case userhome h of
              None \<Rightarrow> p
            | Some home \<Rightarrow>
                (let r = rstrip_slash home @ dropWhile (\<lambda>c. c \<noteq> CHR ''/'') (drop 1 p)
                 in if r = [] then ''/'' else r)))"

text \<open>\<^verbatim>\<open>open(p, 'r')\<close> and reading the whole text.\<close>

definition read_text :: "state \<Rightarrow> string \<Rightarrow> error + string" where
  "read_text s p =
     (if p = [] then Inl (FileNotFoundError p)
      else (case fs s (abspath (cwd s) p) of
              None \<Rightarrow> Inl (FileNotFoundError p)
            | Some (Dir m) \<Rightarrow> Inl (IsADirectoryError p)
            | Some (File t m) \<Rightarrow> Inr t))"

text \<open>\<^verbatim>\<open>fd.readlines()\<close>: each line keeps its newline; the last may have none.\<close>

fun readlines_from :: "string \<Rightarrow> string \<Rightarrow> string list" where
  "readlines_from cur [] = (if cur = [] then [] else [rev cur])"
| "readlines_from cur (c # cs) =
     (if c = CHR 0x0A then rev (c # cur) # readlines_from [] cs
      else readlines_from (c # cur) cs)"

definition readlines :: "string \<Rightarrow> string list" where
  "readlines text = readlines_from [] text"

text \<open>\<^verbatim>\<open>input(question)\<close>: the next line of standard input, \<^verbatim>\<open>EOFError\<close> at its end.\<close>

definition input_line :: "string io" where
  "input_line s =
     (case stdin s of
        [] \<Rightarrow> (Inl EOFError, s)
      | l # ls \<Rightarrow> (Inr l, s\<lparr>stdin := ls\<rparr>))"

section \<open>\<^verbatim>\<open>generate_config_file\<close>\<close>

text \<open>\<^verbatim>\<open>key = arg[0][-1].replace('--', '')\<close>; an empty tuple of flags raises \<^verbatim>\<open>IndexError\<close>.\<close>

definition arg_key :: "config_arg \<Rightarrow> error + string" where
  "arg_key arg =
     (case fst arg of
        [] \<Rightarrow> Inl IndexError
      | f # fl \<Rightarrow> Inr (str_replace (last (f # fl)) ''--'' []))"

text \<open>
  The value of a key: the known one if the key is known, else the declared default if
  the entry has one, else \<^verbatim>\<open>None\<close>.
\<close>

definition resolve_value :: "config \<Rightarrow> config_arg \<Rightarrow> string \<Rightarrow> pyvalue" where
  "resolve_value known_config arg key =
     (case known_config key of
        Some v \<Rightarrow> v
      | None \<Rightarrow> (case snd arg ''default'' of Some v \<Rightarrow> v | None \<Rightarrow> PNone))"

text \<open>The key and the text printed for it, by the type of the value.\<close>

fun key_and_text :: "string \<Rightarrow> pyvalue \<Rightarrow> string \<times> string" where
  "key_and_text key PNone = (''# '' @ key, [])"
| "key_and_text key (PBool b) = (key, if b then ''1'' else ''0'')"
| "key_and_text key (PNum r f) = (key, f)"
| "key_and_text key v = (key, py_str v)"

text \<open>
  One pass of the loop body: the three lines of an entry. The help text is looked up
  after the value is resolved, so a missing \<^verbatim>\<open>'help'\<close> raises \<^verbatim>\<open>KeyError\<close> there.
\<close>

definition entry_lines :: "config \<Rightarrow> config_arg \<Rightarrow> error + string list" where
  "entry_lines known_config arg =
     (case arg_key arg of
        Inl e \<Rightarrow> Inl e
      | Inr key \<Rightarrow>
          (case snd arg ''help'' of
             None \<Rightarrow> Inl (KeyError ''help'')
           | Some hlp \<Rightarrow>
               (let kt = key_and_text key (resolve_value known_config arg key)
                in Inr [''# '' @ py_str hlp, fst kt @ '' = '' @ snd kt, []])))"

fun render_args :: "config \<Rightarrow> config_arg list \<Rightarrow> string list \<Rightarrow> error + string list" where
  "render_args known_config [] config_lines = Inr config_lines"
| "render_args known_config (arg # args) config_lines =
     (case entry_lines known_config arg of
        Inl e \<Rightarrow> Inl e
      | Inr ls \<Rightarrow> render_args known_config args (config_lines @ ls))"

definition generate_config_file :: "string \<Rightarrow> config_arg list \<Rightarrow> config \<Rightarrow> bool \<Rightarrow> unit io" where
  "generate_config_file filename config_args known_config overwrite s =
     (if \<not> overwrite \<and> os_path_exists s filename then (Inr (), s)
      else
        (let config_dir = dirname (abspath (cwd s) filename)
         in and_then
              (if \<not> os_path_exists s config_dir then makedirs config_dir (octal [7, 5, 5]) s
               else (Inr (), s))
              (\<lambda>u s1.
                 (case render_args known_config config_args [''[Default]'', []] of
                    Inl e \<Rightarrow> (Inl e, s1)
                  | Inr config_lines \<Rightarrow>
                      and_then (write_file filename (str_join [CHR 0x0A] config_lines) s1)
                        (\<lambda>u. os_chmod filename (octal [6, 6, 0]))))))"

section \<open>The probes and the resolved server configuration\<close>

text \<open>
  The loop shared by \<^verbatim>\<open>extract_bitcoincore_config\<close> and \<^verbatim>\<open>server_to_client_config\<close>: for each
  key of the table that the source mapping has, the translated key gets its value.
\<close>

fun translate_keys :: "(string \<times> string) list \<Rightarrow> (string \<rightharpoonup> 'v) \<Rightarrow> (string \<rightharpoonup> 'v) \<Rightarrow> (string \<rightharpoonup> 'v)" where
  "translate_keys [] src acc = acc"
| "translate_keys ((k, k') # table) src acc =
     translate_keys table src (case src k of None \<Rightarrow> acc | Some v \<Rightarrow> acc(k' \<mapsto> v))"

text \<open>
  \<^verbatim>\<open>extract_old_config\<close>. \<^verbatim>\<open>ConfigParser.read\<close> skips a file it cannot open, which leaves the
  parser without a \<^verbatim>\<open>Default\<close> section; a text it cannot parse raises.
\<close>

definition rename_old_key :: "string \<Rightarrow> string" where
  "rename_old_key key =
     str_replace (str_replace key ''backend-rpc-'' ''backend-'')
       ''blockchain-service-name'' ''backend-name''"

definition extract_old_config :: "host \<Rightarrow> state \<Rightarrow> error + config" where
  "extract_old_config h s =
     (let old_configfile = os_path_join (old_appdir h) ''metronotesd.conf''
      in if os_path_exists s old_configfile
         then (case read_text s old_configfile of
                 Inl e \<Rightarrow> Inr Map.empty
               | Inr text \<Rightarrow>
                   (case configparser_read h text of
                      None \<Rightarrow> Inl (LibraryError ''configparser'')
                    | Some configfile \<Rightarrow>
                        (case configfile ''Default'' of
                           None \<Rightarrow> Inr Map.empty
                         | Some items \<Rightarrow>
                             Inr (foldl
                                    (\<lambda>old_config kv.
                                       old_config
                                         (rename_old_key (fst kv)
                                          \<mapsto> PStr (str_replace (snd kv) ''jmcorgan'' ''addrindex'')))
                                    Map.empty items))))
         else Inr Map.empty)"

text \<open>
  The path of \<^verbatim>\<open>bitcoin.conf\<close>. On Windows a missing \<^verbatim>\<open>APPDATA\<close> raises \<^verbatim>\<open>KeyError\<close>; the
  join is the POSIX one in all three branches.
\<close>

definition btc_conf_file :: "host \<Rightarrow> error + string" where
  "btc_conf_file h =
     (if platform_system h = ''Darwin''
      then Inr (os_path_join (expanduser h ''~/Library/Application Support/Bitcoin/'') ''bitcoin.conf'')
      else if platform_system h = ''Windows''
      then (case environ h ''APPDATA'' of
              None \<Rightarrow> Inl (KeyError ''APPDATA'')
            | Some appdata \<Rightarrow> Inr (os_path_join (os_path_join appdata ''Bitcoin'') ''bitcoin.conf''))
      else Inr (os_path_join (expanduser h ''~/.bitcoin'') ''bitcoin.conf''))"

text \<open>
  The loop body over the lines: a line with a \<^verbatim>\<open>#\<close> anywhere, or without \<^verbatim>\<open>=\<close>, is skipped;
  any other line sets the stripped key to the stripped text after the first \<^verbatim>\<open>=\<close>.
\<close>

definition skipped_line :: "string \<Rightarrow> bool" where
  "skipped_line line = (CHR ''#'' \<in> set line \<or> CHR ''='' \<notin> set line)"

definition line_key :: "string \<Rightarrow> string" where
  "line_key line = str_strip (fst (split_first CHR ''='' line))"

definition line_value :: "string \<Rightarrow> string" where
  "line_value line = str_strip (snd (split_first CHR ''='' line))"

definition parse_conf_line :: "(string \<rightharpoonup> string) \<Rightarrow> string \<Rightarrow> (string \<rightharpoonup> string)" where
  "parse_conf_line conf line =
     (if skipped_line line then conf else conf(line_key line \<mapsto> line_value line))"

definition bitcoind_config_keys :: "(string \<times> string) list" where
  "bitcoind_config_keys =
     [(''rpcport'', ''backend-port''),
      (''rpcuser'', ''backend-user''),
      (''rpcpassword'', ''backend-password''),
      (''rpcssl'', ''backend-ssl'')]"

text \<open>The part of \<^verbatim>\<open>extract_bitcoincore_config\<close> that works on the lines of the file.\<close>

definition parse_bitcoin_lines :: "string list \<Rightarrow> config" where
  "parse_bitcoin_lines lines =
     translate_keys bitcoind_config_keys
       (map_option PStr \<circ> foldl parse_conf_line Map.empty lines) Map.empty"

definition extract_bitcoincore_config :: "host \<Rightarrow> state \<Rightarrow> error + config" where
  "extract_bitcoincore_config h s =
     (case btc_conf_file h of
        Inl e \<Rightarrow> Inl e
      | Inr f \<Rightarrow>
          if os_path_exists s f
          then (case read_text s f of
                  Inl e \<Rightarrow> Inl e
                | Inr text \<Rightarrow> Inr (parse_bitcoin_lines (readlines text)))
          else Inr Map.empty)"

text \<open>\<^verbatim>\<open>dict.update\<close> twice: first the daemon's values, then the legacy ones over them.\<close>

definition merge_known_config :: "config \<Rightarrow> config \<Rightarrow> config" where
  "merge_known_config bitcoincore_config old_config =
     (Map.empty ++ bitcoincore_config) ++ old_config"

definition get_server_known_config :: "host \<Rightarrow> state \<Rightarrow> error + config" where
  "get_server_known_config h s =
     (case extract_bitcoincore_config h s of
        Inl e \<Rightarrow> Inl e
      | Inr bitcoincore_config \<Rightarrow>
          (case extract_old_config h s of
             Inl e \<Rightarrow> Inl e
           | Inr old_config \<Rightarrow> Inr (merge_known_config bitcoincore_config old_config)))"

definition client_config_keys :: "(string \<times> string) list" where
  "client_config_keys =
     [(''backend-connect'', ''wallet-connect''),
      (''backend-port'', ''wallet-port''),
      (''backend-user'', ''wallet-user''),
      (''backend-password'', ''wallet-password''),
      (''backend-ssl'', ''wallet-ssl''),
      (''backend-ssl-verify'', ''wallet-ssl-verify''),
      (''rpc-host'', ''metronotes-rpc-connect''),
      (''rpc-port'', ''metronotes-rpc-port''),
      (''rpc-user'', ''metronotes-rpc-user''),
      (''rpc-password'', ''metronotes-rpc-password'')]"

definition server_to_client_config :: "config \<Rightarrow> config" where
  "server_to_client_config server_config =
     translate_keys client_config_keys server_config Map.empty"

section \<open>\<^verbatim>\<open>generate_config_files\<close>\<close>

text \<open>
  Lines 151 and 152: without an \<^verbatim>\<open>rpc-password\<close> key, the password is
  \<^verbatim>\<open>util.hexlify(util.dhash(os.urandom(16)))\<close>. The state counts the calls of \<^verbatim>\<open>os.urandom\<close>.
\<close>

definition random_password :: "host \<Rightarrow> config \<Rightarrow> state \<Rightarrow> config \<times> state" where
  "random_password h server_known_config s =
     (if server_known_config ''rpc-password'' = None
      then (server_known_config
              (''rpc-password'' \<mapsto> PStr (hexlify h (dhash h (urandom h (urandom_calls s) 16)))),
            s\<lparr>urandom_calls := Suc (urandom_calls s)\<rparr>)
      else (server_known_config, s))"

definition generate_config_files :: "host \<Rightarrow> unit io" where
  "generate_config_files h s =
     (let server_configfile = os_path_join (configdir h) ''server.conf''
      in if \<not> os_path_exists s server_configfile
         then (case get_server_known_config h s of
                 Inl e \<Rightarrow> (Inl e, s)
               | Inr known \<Rightarrow>
                   (let kp = random_password h known s
                    in and_then
                         (generate_config_file server_configfile (SERVER_CONFIG_ARGS h)
                            (fst kp) False (snd kp))
                         (\<lambda>u s2.
                            (let client_configfile = os_path_join (configdir h) ''client.conf''
                             in if \<not> os_path_exists s2 client_configfile
                                then generate_config_file client_configfile (CLIENT_CONFIG_ARGS h)
                                       (server_to_client_config (fst kp)) False s2
                                else (Inr (), s2)))))
         else (Inr (), s))"

section \<open>\<^verbatim>\<open>bootstrap\<close> and its \<^verbatim>\<open>safe_extract\<close>\<close>

text \<open>
  \<^verbatim>\<open>bootstrap\<close> defines \<^verbatim>\<open>is_within_directory\<close> and \<^verbatim>\<open>safe_extract\<close> twice, with the same
  text; one definition stands for both.
\<close>

definition is_within_directory :: "string \<Rightarrow> string \<Rightarrow> string \<Rightarrow> bool" where
  "is_within_directory wd directory target =
     (let abs_directory = abspath wd directory;
          abs_target = abspath wd target
      in commonprefix abs_directory abs_target = abs_directory)"

text \<open>The loop over \<^verbatim>\<open>tar.getmembers()\<close>: the first member outside raises.\<close>

fun check_members :: "string \<Rightarrow> string \<Rightarrow> string list \<Rightarrow> error + unit" where
  "check_members wd path [] = Inr ()"
| "check_members wd path (name # members) =
     (if \<not> is_within_directory wd path (os_path_join path name) then Inl PathTraversal
      else check_members wd path members)"

text \<open>An open archive: its text and the names of its members.\<close>

record tarfile =
  tar_text :: string
  getmembers :: "string list"

definition safe_extract :: "host \<Rightarrow> tarfile \<Rightarrow> string \<Rightarrow> unit io" where
  "safe_extract h tar path s =
     (case check_members (cwd s) path (getmembers tar) of
        Inl e \<Rightarrow> (Inl e, s)
      | Inr u \<Rightarrow> extractall h (tar_text tar) path s)"

text \<open>\<^verbatim>\<open>urllib.request.urlretrieve(url, filename, reporthook)\<close>; the hook only prints.\<close>

definition urlretrieve :: "host \<Rightarrow> string \<Rightarrow> string \<Rightarrow> unit io" where
  "urlretrieve h url filename s =
     (case url_body h url of
        None \<Rightarrow> (Inl (LibraryError ''urlretrieve''), s)
      | Some body \<Rightarrow> write_file filename body s)"

text \<open>\<^verbatim>\<open>tarfile.open(name, 'r:gz')\<close>.\<close>

definition tarfile_open :: "host \<Rightarrow> string \<Rightarrow> tarfile io" where
  "tarfile_open h name s =
     (case read_text s name of
        Inl e \<Rightarrow> (Inl e, s)
      | Inr text \<Rightarrow>
          (case tar_members h text of
             None \<Rightarrow> (Inl (LibraryError ''tarfile''), s)
           | Some names \<Rightarrow> (Inr \<lparr>tar_text = text, getmembers = names\<rparr>, s)))"

text \<open>One of the two downloads: fetch, extract into the working directory, move, restrict.\<close>

definition fetch_database :: "host \<Rightarrow> string \<Rightarrow> string \<Rightarrow> string \<Rightarrow> string \<Rightarrow> unit io" where
  "fetch_database h url archive extracted database s =
     and_then (urlretrieve h url archive s)
       (\<lambda>u s1. and_then (tarfile_open h archive s1)
          (\<lambda>tar_file s2. and_then (safe_extract h tar_file ''.'' s2)
             (\<lambda>u s3. and_then (shutil_move h extracted database s3)
                (\<lambda>u. os_chmod database (octal [6, 6, 0])))))"

definition bootstrap_url :: string where
  "bootstrap_url = ''https://s3.amazonaws.com/metronotes-bootstrap/metronotesd-db.latest.tar.gz''"

definition bootstrap_url_testnet :: string where
  "bootstrap_url_testnet =
     ''https://s3.amazonaws.com/metronotes-bootstrap/metronotesd-testnet-db.latest.tar.gz''"

text \<open>Everything after the confirmation: both downloads, then the three removals.\<close>

definition download_all :: "host \<Rightarrow> unit io" where
  "download_all h s =
     and_then
       (fetch_database h bootstrap_url ''metronotesd-db.latest.tar.gz'' ''metronotesd.9.db''
          (os_path_join (data_dir h) (APP_NAME h @ ''.db'')) s)
       (\<lambda>u s1. and_then
          (fetch_database h bootstrap_url_testnet ''metronotesd-testnet-db.latest.tar.gz''
             ''metronotesd.9.testnet.db''
             (os_path_join (data_dir h) (APP_NAME h @ ''.testnet.db'')) s1)
          (\<lambda>u s2. and_then (os_remove ''metronotesd-db.latest.tar.gz'' s2)
             (\<lambda>u s3. and_then (os_remove ''metronotesd-testnet-db.latest.tar.gz'' s3)
                (\<lambda>u. os_remove ''checksums.txt''))))"

definition bootstrap :: "host \<Rightarrow> bool \<Rightarrow> bool \<Rightarrow> unit io" where
  "bootstrap h overwrite ask_confirmation s =
     and_then
       (if \<not> os_path_exists s (data_dir h) then makedirs (data_dir h) (octal [7, 5, 5]) s
        else (Inr (), s))
       (\<lambda>u s1.
          if \<not> overwrite \<and> os_path_exists s1 (os_path_join (data_dir h) (APP_NAME h @ ''.db''))
          then (Inr (), s1)
          else if ask_confirmation
          then and_then (input_line s1)
                 (\<lambda>answer s2. if str_lower answer \<noteq> ''y'' then (Inr (), s2) else download_all h s2)
          else download_all h s1)"

section \<open>Notions used in the statements and proofs\<close>

text \<open>
  The daemon's file as the specification reads it: the key of a line is the stripped
  text before its first \<^verbatim>\<open>=\<close>, the value the stripped text after it. A line is skipped
  when it is blank, a comment line (its first character that is not blank is \<^verbatim>\<open>#\<close>) or has
  no \<^verbatim>\<open>=\<close>, and the file's value for a key is the value of the last line with this key
  that is not skipped. None of these refers to the functions of the model.
\<close>

definition first_eq :: "string \<Rightarrow> nat" where
  "first_eq l = length (takeWhile (\<lambda>c. c \<noteq> CHR ''='') l)"

definition key_text :: "string \<Rightarrow> string" where
  "key_text l = str_strip (take (first_eq l) l)"

definition value_text :: "string \<Rightarrow> string" where
  "value_text l = str_strip (drop (Suc (first_eq l)) l)"

definition claimed_skipped :: "string \<Rightarrow> bool" where
  "claimed_skipped l =
     (str_strip l = [] \<or> prefix ''#'' (str_strip l) \<or> CHR ''='' \<notin> set l)"

definition claimed_value :: "string list \<Rightarrow> string \<Rightarrow> string option" where
  "claimed_value lines k =
     map_option value_text (find (\<lambda>l. \<not> claimed_skipped l \<and> key_text l = k) (rev lines))"

text \<open>
  The same reading with the one change the code forces: a line counts only if it has an
  \<^verbatim>\<open>=\<close> and no \<^verbatim>\<open>#\<close> anywhere.
\<close>

definition pair_line :: "string \<Rightarrow> bool" where
  "pair_line l = (CHR ''#'' \<notin> set l \<and> CHR ''='' \<in> set l)"

definition pair_value :: "string list \<Rightarrow> string \<Rightarrow> string option" where
  "pair_value lines k =
     map_option value_text (find (\<lambda>l. pair_line l \<and> key_text l = k) (rev lines))"

text \<open>
  A frame condition used below: the second state differs from the first in the file
  system only, every node of the first is still there unchanged, and every new node is a
  directory.
\<close>

definition only_adds_dirs :: "state \<Rightarrow> state \<Rightarrow> bool" where
  "only_adds_dirs s s' =
     (s' = s\<lparr>fs := fs s'\<rparr>
      \<and> (\<forall>p. case fs s p of
                Some n \<Rightarrow> fs s' p = Some n
              | None \<Rightarrow> fs s' p = None \<or> (\<exists>m. fs s' p = Some (Dir m))))"

text \<open>
  Containment as the specification words it: the absolute target is the absolute
  destination root itself or lies below it, component by component.
\<close>

definition resolves_inside :: "string \<Rightarrow> string \<Rightarrow> string \<Rightarrow> bool" where
  "resolves_inside wd directory target =
     (abspath wd target = abspath wd directory
      \<or> prefix (rstrip_slash (abspath wd directory) @ ''/'') (abspath wd target))"

text \<open>The permission digits of a mode: read is 4, write is 2, execute is 1.\<close>

definition owner_bits :: "nat \<Rightarrow> nat" where
  "owner_bits mode = mode div 64 mod 8"

definition group_bits :: "nat \<Rightarrow> nat" where
  "group_bits mode = mode div 8 mod 8"

definition other_bits :: "nat \<Rightarrow> nat" where
  "other_bits mode = mode mod 8"

text \<open>
  The shape of a normalised path, used in the proofs: some leading slashes, then
  components joined by single slashes, none of them empty, a dot, or holding a slash.
\<close>

definition clean :: "string list \<Rightarrow> bool" where
  "clean cs = (\<forall>c \<in> set cs. c \<noteq> [] \<and> c \<noteq> ''.'' \<and> CHR ''/'' \<notin> set c)"

definition slashed :: "nat \<Rightarrow> string list \<Rightarrow> string" where
  "slashed i cs = replicate i CHR ''/'' @ str_join ''/'' cs"

section \<open>A sample installation\<close>

text \<open>
  A Linux host and a state in which both probed files exist: \<^verbatim>\<open>bitcoin.conf\<close> sets the port
  and the user, the legacy file sets the port again. The theorems below are instantiated
  on them.
\<close>

definition sample_bitcoin_conf :: string where
  "sample_bitcoin_conf =
     ''# wallet'' @ [CHR 0x0A] @ ''rpcport=8332'' @ [CHR 0x0A] @ [CHR 0x0A]
     @ ''rpcuser = alice'' @ [CHR 0x0A] @ ''server'' @ [CHR 0x0A]"

definition sample_legacy_conf :: string where
  "sample_legacy_conf = ''[Default]'' @ [CHR 0x0A] @ ''backend-rpc-port = 8333'' @ [CHR 0x0A]"

definition sample_server_args :: "config_arg list" where
  "sample_server_args =
     [([''--backend-port''], [''help'' \<mapsto> PStr ''the backend port'']),
      ([''--testnet''], [''help'' \<mapsto> PStr ''use the test network'', ''default'' \<mapsto> PBool False]),
      ([''--rpc-password''], [''help'' \<mapsto> PStr ''the RPC password'']),
      ([''--rpc-user''], [''help'' \<mapsto> PStr ''the RPC user''])]"

definition sample_client_args :: "config_arg list" where
  "sample_client_args =
     [([''--wallet-port''], [''help'' \<mapsto> PStr ''the wallet port'']),
      ([''--metronotes-rpc-password''], [''help'' \<mapsto> PStr ''the server password''])]"

definition sample_host :: host where
  "sample_host =
     \<lparr>platform_system = ''Linux'',
      environ = Map.empty,
      userhome = Some ''/h'',
      old_appdir = ''/h/old'',
      configdir = ''/h/cfg'',
      data_dir = ''/h/data'',
      APP_NAME = ''metronotes'',
      SERVER_CONFIG_ARGS = sample_server_args,
      CLIENT_CONFIG_ARGS = sample_client_args,
      configparser_read =
        (\<lambda>text. if text = sample_legacy_conf
               then Some [''Default'' \<mapsto> [(''backend-rpc-port'', ''8333'')]] else None),
      urandom = (\<lambda>call n. replicate n call),
      dhash = rev,
      hexlify = map (\<lambda>b. ''0123456789abcdef'' ! (b mod 16)),
      url_body = Map.empty,
      tar_members = (\<lambda>text. None),
      extractall = (\<lambda>text path s. (Inr (), s)),
      shutil_move = (\<lambda>src dst s. (Inr (), s))\<rparr>"

definition sample_fs :: "string \<rightharpoonup> node" where
  "sample_fs =
     [''/'' \<mapsto> Dir (octal [7, 5, 5]),
      ''/h'' \<mapsto> Dir (octal [7, 5, 5]),
      ''/h/.bitcoin'' \<mapsto> Dir (octal [7, 5, 5]),
      ''/h/.bitcoin/bitcoin.conf'' \<mapsto> File sample_bitcoin_conf (octal [6, 4, 4]),
      ''/h/old'' \<mapsto> Dir (octal [7, 5, 5]),
      ''/h/old/metronotesd.conf'' \<mapsto> File sample_legacy_conf (octal [6, 4, 4])]"

definition sample_state :: state where
  "sample_state = \<lparr>cwd = ''/h'', fs = sample_fs, stdin = [''n''], urandom_calls = 0\<rparr>"

text \<open>The same installation once \<^verbatim>\<open>server.conf\<close> has been written, with no \<^verbatim>\<open>client.conf\<close>.\<close>

definition sample_installed_state :: state where
  "sample_installed_state =
     sample_state\<lparr>fs := sample_fs
       (''/h/cfg'' \<mapsto> Dir (octal [7, 5, 5]),
        ''/h/cfg/server.conf'' \<mapsto> File ''[Default]'' (octal [6, 6, 0]))\<rparr>"

text \<open>The same installation with a \<^verbatim>\<open>bitcoin.conf\<close> whose password holds a \<^verbatim>\<open>#\<close>.\<close>

definition sample_hash_conf :: string where
  "sample_hash_conf = ''rpcpassword=abc#def'' @ [CHR 0x0A]"

definition sample_hash_state :: state where
  "sample_hash_state =
     sample_state\<lparr>fs := sample_fs
       (''/h/.bitcoin/bitcoin.conf'' \<mapsto> File sample_hash_conf (octal [6, 4, 4]))\<rparr>"

section \<open>Evaluating paths\<close>

lemmas path_defs = abspath_def os_path_join_def isabs_def normpath_def initial_slashes_def
  norm_step_def dirname_def path_head_def path_tail_def rstrip_slash_def

section \<open>The key translation\<close>

lemma translate_keys_other:
  "k' \<notin> snd ` set table \<Longrightarrow> translate_keys table src acc k' = acc k'"
proof (induction table arbitrary: acc)
  case Nil
  then show ?case by simp
next
  case (Cons p table)
  obtain a a' where p: "p = (a, a')" by (cases p)
  from Cons.prems p have ne: "k' \<noteq> a'" and rest: "k' \<notin> snd ` set table" by auto
  show ?case
    using Cons.IH [OF rest] ne by (simp add: p split: option.split)
qed

lemma translate_keys_entry:
  assumes "distinct (map snd table)" and "(k, k') \<in> set table"
  shows "translate_keys table src acc k' = (case src k of Some v \<Rightarrow> Some v | None \<Rightarrow> acc k')"
  using assms
proof (induction table arbitrary: acc)
  case Nil
  then show ?case by simp
next
  case (Cons p table)
  obtain a a' where p: "p = (a, a')" by (cases p)
  from Cons.prems p have fresh: "a' \<notin> snd ` set table" and dist: "distinct (map snd table)"
    by auto
  show ?case
  proof (cases "(k, k') = (a, a')")
    case True
    then have eq: "k = a" "k' = a'" by simp_all
    have "translate_keys table src (case src a of None \<Rightarrow> acc | Some v \<Rightarrow> acc(a' \<mapsto> v)) a'
        = (case src a of None \<Rightarrow> acc | Some v \<Rightarrow> acc(a' \<mapsto> v)) a'"
      by (rule translate_keys_other [OF fresh])
    then show ?thesis
      by (simp add: p eq split: option.split_asm option.split)
  next
    case False
    with Cons.prems p have mem: "(k, k') \<in> set table" by auto
    then have "k' \<noteq> a'" using fresh by force
    then show ?thesis
      using Cons.IH [OF dist mem] by (simp add: p split: option.split)
  qed
qed

lemma client_config_keys_distinct: "distinct (map snd client_config_keys)"
  by (simp add: client_config_keys_def)

text \<open>
  Claim C9. \<^verbatim>\<open>server_to_client_config\<close> returns exactly the translated subset: a client key
  of the table carries whatever the server configuration has at its server key, any
  other key is absent, and the example of the specification evaluates as stated.
\<close>

theorem server_to_client_config_translates:
  "(\<forall>k k'. (k, k') \<in> set client_config_keys \<longrightarrow> server_to_client_config server_config k' = server_config k)
   \<and> (\<forall>k'. k' \<notin> snd ` set client_config_keys \<longrightarrow> server_to_client_config server_config k' = None)
   \<and> server_to_client_config
        [''backend-connect'' \<mapsto> PStr ''10.0.0.5'', ''rpc-password'' \<mapsto> PStr ''secret'']
      = [''wallet-connect'' \<mapsto> PStr ''10.0.0.5'', ''metronotes-rpc-password'' \<mapsto> PStr ''secret'']"
proof (intro conjI allI impI)
  fix k k'
  assume "(k, k') \<in> set client_config_keys"
  then have "server_to_client_config server_config k'
      = (case server_config k of Some v \<Rightarrow> Some v | None \<Rightarrow> None)"
    unfolding server_to_client_config_def
    using translate_keys_entry [OF client_config_keys_distinct] by fastforce
  then show "server_to_client_config server_config k' = server_config k"
    by (simp split: option.split)
next
  fix k'
  assume "k' \<notin> snd ` set client_config_keys"
  then show "server_to_client_config server_config k' = None"
    unfolding server_to_client_config_def by (simp add: translate_keys_other)
next
  show "server_to_client_config
        [''backend-connect'' \<mapsto> PStr ''10.0.0.5'', ''rpc-password'' \<mapsto> PStr ''secret'']
      = [''wallet-connect'' \<mapsto> PStr ''10.0.0.5'', ''metronotes-rpc-password'' \<mapsto> PStr ''secret'']"
    by (simp add: server_to_client_config_def client_config_keys_def)
qed

theorem server_to_client_config_translates_witness:
  "server_to_client_config [''rpc-port'' \<mapsto> PStr ''4000'', ''testnet'' \<mapsto> PBool True]
     ''metronotes-rpc-port'' = Some (PStr ''4000'')
   \<and> server_to_client_config [''rpc-port'' \<mapsto> PStr ''4000'', ''testnet'' \<mapsto> PBool True]
     ''testnet'' = None"
proof -
  let ?sc = "[''rpc-port'' \<mapsto> PStr ''4000'', ''testnet'' \<mapsto> PBool True]"
  have a: "(''rpc-port'', ''metronotes-rpc-port'') \<in> set client_config_keys"
    by (simp add: client_config_keys_def)
  have b: "''testnet'' \<notin> snd ` set client_config_keys"
    by (simp add: client_config_keys_def)
  from server_to_client_config_translates [of ?sc] a b show ?thesis
    by simp
qed

section \<open>The probe of the daemon's file\<close>

lemma line_key_text: "line_key l = key_text l"
proof -
  have "take (first_eq l) l = takeWhile (\<lambda>c. c \<noteq> CHR ''='') l"
    unfolding first_eq_def by (rule takeWhile_eq_take [symmetric])
  then show ?thesis
    by (simp add: line_key_def key_text_def split_first_def)
qed

lemma line_value_text: "line_value l = value_text l"
proof -
  have "dropWhile (\<lambda>c. c \<noteq> CHR ''='') l = drop (first_eq l) l"
    unfolding first_eq_def by (rule dropWhile_eq_drop)
  then have "drop 1 (dropWhile (\<lambda>c. c \<noteq> CHR ''='') l) = drop (Suc (first_eq l)) l"
    by simp
  then show ?thesis
    by (simp add: line_value_def value_text_def split_first_def)
qed

lemma skipped_line_pair: "skipped_line l = (\<not> pair_line l)"
  by (auto simp: skipped_line_def pair_line_def)

lemma foldl_parse_conf_line:
  "foldl parse_conf_line conf lines k
   = (case pair_value lines k of Some v \<Rightarrow> Some v | None \<Rightarrow> conf k)"
proof (induction lines rule: rev_induct)
  case Nil
  then show ?case by (simp add: pair_value_def)
next
  case (snoc l lines)
  then show ?case
    by (simp add: pair_value_def parse_conf_line_def skipped_line_pair line_key_text
        line_value_text split: option.split)
qed

lemma bitcoind_config_keys_distinct: "distinct (map snd bitcoind_config_keys)"
  by (simp add: bitcoind_config_keys_def)

lemma parse_bitcoin_lines_entry:
  assumes "(k, k') \<in> set bitcoind_config_keys"
  shows "parse_bitcoin_lines lines k' = map_option PStr (pair_value lines k)"
proof -
  have "parse_bitcoin_lines lines k'
      = (case (map_option PStr \<circ> foldl parse_conf_line Map.empty lines) k of
           Some v \<Rightarrow> Some v | None \<Rightarrow> None)"
    unfolding parse_bitcoin_lines_def
    by (rule translate_keys_entry [OF bitcoind_config_keys_distinct assms])
  then show ?thesis
    by (simp add: foldl_parse_conf_line split: option.split)
qed

lemma parse_bitcoin_lines_dom:
  "dom (parse_bitcoin_lines lines)
   \<subseteq> {''backend-port'', ''backend-user'', ''backend-password'', ''backend-ssl''}"
proof
  fix k' assume "k' \<in> dom (parse_bitcoin_lines lines)"
  then have ne: "parse_bitcoin_lines lines k' \<noteq> None" by auto
  have "k' \<in> snd ` set bitcoind_config_keys"
  proof (rule ccontr)
    assume "k' \<notin> snd ` set bitcoind_config_keys"
    then have "parse_bitcoin_lines lines k' = None"
      unfolding parse_bitcoin_lines_def by (simp add: translate_keys_other)
    with ne show False by simp
  qed
  then show "k' \<in> {''backend-port'', ''backend-user'', ''backend-password'', ''backend-ssl''}"
    by (auto simp: bitcoind_config_keys_def)
qed

lemma str_strip_subset: "set (str_strip l) \<subseteq> set l"
proof
  fix c assume "c \<in> set (str_strip l)"
  then have "c \<in> set (dropWhile is_space (rev (dropWhile is_space l)))"
    by (simp add: str_strip_def)
  then have "c \<in> set (rev (dropWhile is_space l))" by (rule set_dropWhileD)
  then have "c \<in> set (dropWhile is_space l)" by simp
  then show "c \<in> set l" by (rule set_dropWhileD)
qed

lemma str_strip_empty:
  assumes "str_strip l = []"
  shows "\<forall>c \<in> set l. is_space c"
proof -
  let ?X = "dropWhile is_space l"
  from assms have all: "\<forall>c \<in> set ?X. is_space c"
    by (simp add: str_strip_def dropWhile_eq_Nil_conv)
  have "?X = []"
  proof (rule ccontr)
    assume ne: "?X \<noteq> []"
    then have "\<not> is_space (hd ?X)" by (rule hd_dropWhile)
    moreover have "hd ?X \<in> set ?X" using ne by simp
    ultimately show False using all by blast
  qed
  then show ?thesis by (simp add: dropWhile_eq_Nil_conv)
qed

lemma claimed_skipped_no_pair:
  assumes "claimed_skipped l"
  shows "\<not> pair_line l"
proof -
  consider "str_strip l = []" | "prefix ''#'' (str_strip l)" | "CHR ''='' \<notin> set l"
    using assms by (auto simp: claimed_skipped_def)
  then show ?thesis
  proof cases
    case 1
    have "\<not> is_space CHR ''=''" by (simp add: is_space_def)
    with str_strip_empty [OF 1] have "CHR ''='' \<notin> set l" by blast
    then show ?thesis by (simp add: pair_line_def)
  next
    case 2
    then have "CHR ''#'' \<in> set (str_strip l)" by (auto simp: prefix_def)
    with str_strip_subset have "CHR ''#'' \<in> set l" by blast
    then show ?thesis by (simp add: pair_line_def)
  next
    case 3
    then show ?thesis by (simp add: pair_line_def)
  qed
qed

text \<open>
  Claim C6, as amended. The path of \<^verbatim>\<open>bitcoin.conf\<close> is found on every host but a Windows
  host without \<^verbatim>\<open>APPDATA\<close>, where the probe raises \<^verbatim>\<open>KeyError\<close>. With the path found: a
  missing file gives the empty mapping and no error, and an error of reading is raised.
  A file that is read gives a mapping with no key but \<^verbatim>\<open>backend-port\<close>, \<^verbatim>\<open>backend-user\<close>,
  \<^verbatim>\<open>backend-password\<close> and \<^verbatim>\<open>backend-ssl\<close>, each carrying the value of \<^verbatim>\<open>rpcport\<close>,
  \<^verbatim>\<open>rpcuser\<close>, \<^verbatim>\<open>rpcpassword\<close> and \<^verbatim>\<open>rpcssl\<close>: the stripped text after the first \<^verbatim>\<open>=\<close> of the last
  line with that key that has an \<^verbatim>\<open>=\<close> and no \<^verbatim>\<open>#\<close> anywhere. Blank lines, comment lines and
  lines without \<^verbatim>\<open>=\<close> are never such lines.
\<close>

theorem extract_bitcoincore_config_skips_hash_lines:
  "(case btc_conf_file h of
      Inl e \<Rightarrow>
        platform_system h = ''Windows'' \<and> environ h ''APPDATA'' = None
        \<and> extract_bitcoincore_config h s = Inl (KeyError ''APPDATA'')
    | Inr f \<Rightarrow>
        (\<not> os_path_exists s f \<longrightarrow> extract_bitcoincore_config h s = Inr Map.empty)
      \<and> (\<forall>e. os_path_exists s f \<and> read_text s f = Inl e \<longrightarrow>
            extract_bitcoincore_config h s = Inl e)
      \<and> (\<forall>body. os_path_exists s f \<and> read_text s f = Inr body \<longrightarrow>
           (\<exists>cfg. extract_bitcoincore_config h s = Inr cfg
              \<and> cfg ''backend-port'' = map_option PStr (pair_value (readlines body) ''rpcport'')
              \<and> cfg ''backend-user'' = map_option PStr (pair_value (readlines body) ''rpcuser'')
              \<and> cfg ''backend-password''
                  = map_option PStr (pair_value (readlines body) ''rpcpassword'')
              \<and> cfg ''backend-ssl'' = map_option PStr (pair_value (readlines body) ''rpcssl'')
              \<and> dom cfg
                  \<subseteq> {''backend-port'', ''backend-user'', ''backend-password'', ''backend-ssl''})))
   \<and> (\<forall>l. claimed_skipped l \<longrightarrow> \<not> pair_line l)"
proof (rule conjI)
  show "\<forall>l. claimed_skipped l \<longrightarrow> \<not> pair_line l"
    by (simp add: claimed_skipped_no_pair)
next
  show "case btc_conf_file h of
      Inl e \<Rightarrow>
        platform_system h = ''Windows'' \<and> environ h ''APPDATA'' = None
        \<and> extract_bitcoincore_config h s = Inl (KeyError ''APPDATA'')
    | Inr f \<Rightarrow>
        (\<not> os_path_exists s f \<longrightarrow> extract_bitcoincore_config h s = Inr Map.empty)
      \<and> (\<forall>e. os_path_exists s f \<and> read_text s f = Inl e \<longrightarrow>
            extract_bitcoincore_config h s = Inl e)
      \<and> (\<forall>body. os_path_exists s f \<and> read_text s f = Inr body \<longrightarrow>
           (\<exists>cfg. extract_bitcoincore_config h s = Inr cfg
              \<and> cfg ''backend-port'' = map_option PStr (pair_value (readlines body) ''rpcport'')
              \<and> cfg ''backend-user'' = map_option PStr (pair_value (readlines body) ''rpcuser'')
              \<and> cfg ''backend-password''
                  = map_option PStr (pair_value (readlines body) ''rpcpassword'')
              \<and> cfg ''backend-ssl'' = map_option PStr (pair_value (readlines body) ''rpcssl'')
              \<and> dom cfg
                  \<subseteq> {''backend-port'', ''backend-user'', ''backend-password'', ''backend-ssl''}))"
  proof (cases "btc_conf_file h")
    case (Inl e)
    then have "platform_system h = ''Windows'' \<and> environ h ''APPDATA'' = None
        \<and> e = KeyError ''APPDATA''"
      by (auto simp: btc_conf_file_def split: if_splits option.splits)
    then show ?thesis
      using Inl by (simp add: extract_bitcoincore_config_def)
  next
    case (Inr f)
    have missing: "\<not> os_path_exists s f \<longrightarrow> extract_bitcoincore_config h s = Inr Map.empty"
      using Inr by (simp add: extract_bitcoincore_config_def)
    have failing: "\<forall>e. os_path_exists s f \<and> read_text s f = Inl e \<longrightarrow>
            extract_bitcoincore_config h s = Inl e"
      using Inr by (simp add: extract_bitcoincore_config_def)
    have reading: "\<exists>cfg. extract_bitcoincore_config h s = Inr cfg
              \<and> cfg ''backend-port'' = map_option PStr (pair_value (readlines body) ''rpcport'')
              \<and> cfg ''backend-user'' = map_option PStr (pair_value (readlines body) ''rpcuser'')
              \<and> cfg ''backend-password''
                  = map_option PStr (pair_value (readlines body) ''rpcpassword'')
              \<and> cfg ''backend-ssl'' = map_option PStr (pair_value (readlines body) ''rpcssl'')
              \<and> dom cfg
                  \<subseteq> {''backend-port'', ''backend-user'', ''backend-password'', ''backend-ssl''}"
      if a: "os_path_exists s f \<and> read_text s f = Inr body" for body
    proof -
      let ?cfg = "parse_bitcoin_lines (readlines body)"
      have run: "extract_bitcoincore_config h s = Inr ?cfg"
        using Inr a by (simp add: extract_bitcoincore_config_def)
      have port: "?cfg ''backend-port'' = map_option PStr (pair_value (readlines body) ''rpcport'')"
        by (rule parse_bitcoin_lines_entry) (simp add: bitcoind_config_keys_def)
      have user: "?cfg ''backend-user'' = map_option PStr (pair_value (readlines body) ''rpcuser'')"
        by (rule parse_bitcoin_lines_entry) (simp add: bitcoind_config_keys_def)
      have password: "?cfg ''backend-password''
          = map_option PStr (pair_value (readlines body) ''rpcpassword'')"
        by (rule parse_bitcoin_lines_entry) (simp add: bitcoind_config_keys_def)
      have ssl: "?cfg ''backend-ssl'' = map_option PStr (pair_value (readlines body) ''rpcssl'')"
        by (rule parse_bitcoin_lines_entry) (simp add: bitcoind_config_keys_def)
      from run port user password ssl parse_bitcoin_lines_dom [of "readlines body"]
      show ?thesis by blast
    qed
    from missing failing reading show ?thesis
      using Inr by simp
  qed
qed

lemma sample_btc_conf_file: "btc_conf_file sample_host = Inr ''/h/.bitcoin/bitcoin.conf''"
  by (simp add: btc_conf_file_def sample_host_def expanduser_def path_defs)

lemma sample_btc_exists: "os_path_exists sample_state ''/h/.bitcoin/bitcoin.conf''"
  by (simp add: os_path_exists_def sample_state_def sample_fs_def path_defs)

lemma sample_btc_text: "read_text sample_state ''/h/.bitcoin/bitcoin.conf'' = Inr sample_bitcoin_conf"
  by (simp add: read_text_def sample_state_def sample_fs_def path_defs)

lemmas line_defs = readlines_def first_eq_def key_text_def value_text_def str_strip_def
  is_space_def

lemma sample_pair_values:
  "pair_value (readlines sample_bitcoin_conf) ''rpcport'' = Some ''8332''"
  "pair_value (readlines sample_bitcoin_conf) ''rpcuser'' = Some ''alice''"
  "pair_value (readlines sample_bitcoin_conf) ''rpcpassword'' = None"
  "pair_value (readlines sample_bitcoin_conf) ''rpcssl'' = None"
  by (simp_all add: pair_value_def pair_line_def sample_bitcoin_conf_def line_defs)

lemma sample_windows_conf_file:
  "btc_conf_file (sample_host\<lparr>platform_system := ''Windows''\<rparr>) = Inl (KeyError ''APPDATA'')"
  by (simp add: btc_conf_file_def sample_host_def)

theorem extract_bitcoincore_config_skips_hash_lines_witness:
  "(\<exists>cfg. extract_bitcoincore_config sample_host sample_state = Inr cfg
      \<and> cfg ''backend-port'' = Some (PStr ''8332'')
      \<and> cfg ''backend-user'' = Some (PStr ''alice'')
      \<and> cfg ''backend-password'' = None \<and> cfg ''backend-ssl'' = None \<and> cfg ''server'' = None)
   \<and> extract_bitcoincore_config sample_host (sample_state\<lparr>fs := Map.empty\<rparr>) = Inr Map.empty
   \<and> extract_bitcoincore_config (sample_host\<lparr>platform_system := ''Windows''\<rparr>) sample_state
     = Inl (KeyError ''APPDATA'')"
proof -
  have missing: "\<not> os_path_exists (sample_state\<lparr>fs := Map.empty\<rparr>) ''/h/.bitcoin/bitcoin.conf''"
    by (simp add: os_path_exists_def)
  from extract_bitcoincore_config_skips_hash_lines [of sample_host sample_state]
    sample_btc_exists sample_btc_text
  obtain cfg where run: "extract_bitcoincore_config sample_host sample_state = Inr cfg"
    and port: "cfg ''backend-port'' = map_option PStr (pair_value (readlines sample_bitcoin_conf) ''rpcport'')"
    and user: "cfg ''backend-user'' = map_option PStr (pair_value (readlines sample_bitcoin_conf) ''rpcuser'')"
    and password: "cfg ''backend-password''
        = map_option PStr (pair_value (readlines sample_bitcoin_conf) ''rpcpassword'')"
    and ssl: "cfg ''backend-ssl'' = map_option PStr (pair_value (readlines sample_bitcoin_conf) ''rpcssl'')"
    and keys: "dom cfg \<subseteq> {''backend-port'', ''backend-user'', ''backend-password'', ''backend-ssl''}"
    unfolding sample_btc_conf_file by auto
  have "''server'' \<notin> dom cfg" using keys by auto
  then have other: "cfg ''server'' = None" by auto
  have first: "\<exists>cfg. extract_bitcoincore_config sample_host sample_state = Inr cfg
      \<and> cfg ''backend-port'' = Some (PStr ''8332'')
      \<and> cfg ''backend-user'' = Some (PStr ''alice'')
      \<and> cfg ''backend-password'' = None \<and> cfg ''backend-ssl'' = None \<and> cfg ''server'' = None"
    using run port user password ssl other by (simp add: sample_pair_values)
  from extract_bitcoincore_config_skips_hash_lines [of sample_host "sample_state\<lparr>fs := Map.empty\<rparr>"]
    missing
  have second: "extract_bitcoincore_config sample_host (sample_state\<lparr>fs := Map.empty\<rparr>) = Inr Map.empty"
    unfolding sample_btc_conf_file by simp
  from extract_bitcoincore_config_skips_hash_lines
         [of "sample_host\<lparr>platform_system := ''Windows''\<rparr>" sample_state]
  have third: "extract_bitcoincore_config (sample_host\<lparr>platform_system := ''Windows''\<rparr>) sample_state
     = Inl (KeyError ''APPDATA'')"
    unfolding sample_windows_conf_file by simp
  from first second third show ?thesis by blast
qed

text \<open>
  Claim C6 as stated fails. The line \<^verbatim>\<open>rpcpassword=abc#def\<close> is not blank, is no comment
  line and has an \<^verbatim>\<open>=\<close>, so the file's value for \<^verbatim>\<open>rpcpassword\<close> is \<^verbatim>\<open>abc#def\<close>; the probe
  returns the empty mapping.
\<close>

theorem extract_bitcoincore_config_drops_hash_value:
  "read_text sample_hash_state ''/h/.bitcoin/bitcoin.conf'' = Inr sample_hash_conf
   \<and> readlines sample_hash_conf = [''rpcpassword=abc#def'' @ [CHR 0x0A]]
   \<and> \<not> claimed_skipped (''rpcpassword=abc#def'' @ [CHR 0x0A])
   \<and> claimed_value (readlines sample_hash_conf) ''rpcpassword'' = Some ''abc#def''
   \<and> extract_bitcoincore_config sample_host sample_hash_state = Inr Map.empty"
proof -
  have a: "read_text sample_hash_state ''/h/.bitcoin/bitcoin.conf'' = Inr sample_hash_conf"
    by (simp add: read_text_def sample_hash_state_def sample_state_def path_defs)
  have b: "readlines sample_hash_conf = [''rpcpassword=abc#def'' @ [CHR 0x0A]]"
    by (simp add: readlines_def sample_hash_conf_def)
  have c: "\<not> claimed_skipped (''rpcpassword=abc#def'' @ [CHR 0x0A])"
    by (simp add: claimed_skipped_def str_strip_def is_space_def)
  have d: "claimed_value (readlines sample_hash_conf) ''rpcpassword'' = Some ''abc#def''"
    unfolding b
    by (simp add: claimed_value_def claimed_skipped_def first_eq_def key_text_def value_text_def
        str_strip_def is_space_def)
  have ex: "os_path_exists sample_hash_state ''/h/.bitcoin/bitcoin.conf''"
    by (simp add: os_path_exists_def sample_hash_state_def sample_state_def path_defs)
  have "parse_bitcoin_lines (readlines sample_hash_conf) = Map.empty"
    unfolding b
    by (simp add: parse_bitcoin_lines_def bitcoind_config_keys_def parse_conf_line_def
        skipped_line_def)
  then have e: "extract_bitcoincore_config sample_host sample_hash_state = Inr Map.empty"
    using a ex by (simp add: extract_bitcoincore_config_def sample_btc_conf_file)
  from a b c d e show ?thesis by blast
qed

section \<open>The resolved server configuration\<close>

lemma sample_bitcoincore:
  "extract_bitcoincore_config sample_host sample_state
   = Inr [''backend-port'' \<mapsto> PStr ''8332'', ''backend-user'' \<mapsto> PStr ''alice'']"
  by (simp add: extract_bitcoincore_config_def btc_conf_file_def sample_host_def sample_state_def
      sample_fs_def expanduser_def path_defs os_path_exists_def read_text_def
      parse_bitcoin_lines_def bitcoind_config_keys_def readlines_def sample_bitcoin_conf_def
      parse_conf_line_def skipped_line_def line_key_def line_value_def split_first_def
      str_strip_def is_space_def)

lemma sample_old:
  "extract_old_config sample_host sample_state = Inr [''backend-port'' \<mapsto> PStr ''8333'']"
  by (simp add: extract_old_config_def sample_host_def sample_state_def
      sample_fs_def path_defs os_path_exists_def read_text_def rename_old_key_def str_replace_def)

text \<open>
  Claim C2. When both probes return a mapping, the resolved server configuration maps a
  key of the daemon's mapping that the legacy mapping lacks to the daemon's value, and a
  key of both to the legacy value.
\<close>

theorem legacy_overrides_foreign:
  assumes "extract_bitcoincore_config h s = Inr bitcoincore_config"
    and "extract_old_config h s = Inr old_config"
  shows "\<exists>known. get_server_known_config h s = Inr known
      \<and> (\<forall>k. k \<in> dom bitcoincore_config \<and> k \<notin> dom old_config \<longrightarrow> known k = bitcoincore_config k)
      \<and> (\<forall>k. k \<in> dom bitcoincore_config \<and> k \<in> dom old_config \<longrightarrow> known k = old_config k)"
  using assms
  by (auto simp: get_server_known_config_def merge_known_config_def map_add_def
      split: option.split)

theorem legacy_overrides_foreign_witness:
  "\<exists>known. get_server_known_config sample_host sample_state = Inr known
     \<and> known ''backend-user'' = Some (PStr ''alice'')
     \<and> known ''backend-port'' = Some (PStr ''8333'')"
  using legacy_overrides_foreign [OF sample_bitcoincore sample_old]
  by (auto simp: dom_def)

section \<open>What the file system calls change\<close>

lemma only_adds_dirs_refl: "only_adds_dirs s s"
  by (simp add: only_adds_dirs_def split: option.split)

lemma only_adds_dirs_trans:
  assumes "only_adds_dirs s s1" and "only_adds_dirs s1 s2"
  shows "only_adds_dirs s s2"
proof -
  have rec: "s2 = s\<lparr>fs := fs s2\<rparr>"
    using assms by (metis only_adds_dirs_def state.surjective state.update_convs(2))
  have "case fs s p of Some n \<Rightarrow> fs s2 p = Some n
        | None \<Rightarrow> fs s2 p = None \<or> (\<exists>m. fs s2 p = Some (Dir m))" for p
  proof -
    from assms have a: "case fs s p of Some n \<Rightarrow> fs s1 p = Some n
        | None \<Rightarrow> fs s1 p = None \<or> (\<exists>m. fs s1 p = Some (Dir m))"
      and b: "case fs s1 p of Some n \<Rightarrow> fs s2 p = Some n
        | None \<Rightarrow> fs s2 p = None \<or> (\<exists>m. fs s2 p = Some (Dir m))"
      by (simp_all add: only_adds_dirs_def)
    then show ?thesis
      by (cases "fs s p"; cases "fs s1 p") auto
  qed
  with rec show ?thesis by (simp add: only_adds_dirs_def)
qed

lemma only_adds_dirs_cwd: "only_adds_dirs s s' \<Longrightarrow> cwd s' = cwd s"
  by (metis only_adds_dirs_def state.select_convs(1) state.surjective state.update_convs(2))

lemma os_mkdir_ok:
  assumes "os_mkdir p mode s = (Inr u, s')"
  shows "s' = s\<lparr>fs := (fs s)(abspath (cwd s) p \<mapsto> Dir mode)\<rparr> \<and> fs s (abspath (cwd s) p) = None"
  using assms by (auto simp: os_mkdir_def split: if_splits option.splits node.splits)

lemma os_mkdir_fail:
  assumes "os_mkdir p mode s = (Inl e, s')"
  shows "s' = s"
  using assms by (auto simp: os_mkdir_def split: if_splits option.splits node.splits)

lemma os_mkdir_only_adds_dirs:
  assumes "os_mkdir p mode s = (r, s')"
  shows "only_adds_dirs s s'"
proof (cases r)
  case (Inl e)
  with assms have "s' = s" by (simp add: os_mkdir_fail)
  then show ?thesis by (simp add: only_adds_dirs_refl)
next
  case (Inr u)
  with assms os_mkdir_ok [of p mode s u s'] show ?thesis
    by (auto simp: only_adds_dirs_def split: option.split)
qed

declare makedirs.simps [simp del]

lemma makedirs_only_adds_dirs:
  "makedirs name mode s = (r, s') \<Longrightarrow> only_adds_dirs s s'"
proof (induction name mode s arbitrary: r s' rule: makedirs.induct)
  case (1 name mode s)
  show ?case
  proof (cases "makedirs_head name \<noteq> [] \<and> makedirs_tail name \<noteq> []
         \<and> \<not> os_path_exists s (makedirs_head name)")
    case False
    with "1.prems" have "os_mkdir name mode s = (r, s')"
      by (simp add: makedirs.simps [of name mode s])
    then show ?thesis by (rule os_mkdir_only_adds_dirs)
  next
    case True
    obtain r1 s1 where rec: "makedirs (makedirs_head name) (octal [7, 7, 7]) s = (r1, s1)"
      by (cases "makedirs (makedirs_head name) (octal [7, 7, 7]) s")
    have step1: "only_adds_dirs s s1"
      using "1.IH" True rec by blast
    have "only_adds_dirs s1 s'"
      using "1.prems" True rec
      by (auto simp: makedirs.simps [of name mode s] only_adds_dirs_refl os_mkdir_only_adds_dirs
          split: sum.splits error.splits if_splits)
    with step1 show ?thesis by (rule only_adds_dirs_trans)
  qed
qed

lemma makedirs_leaf:
  assumes "makedirs name mode s = (Inr u, s')" and "makedirs_tail name \<noteq> ''.''"
  shows "fs s' (abspath (cwd s) name) = Some (Dir mode)"
proof (cases "makedirs_head name \<noteq> [] \<and> makedirs_tail name \<noteq> []
         \<and> \<not> os_path_exists s (makedirs_head name)")
  case False
  with assms have "os_mkdir name mode s = (Inr u, s')"
    by (simp add: makedirs.simps [of name mode s])
  from os_mkdir_ok [OF this] show ?thesis by simp
next
  case True
  obtain r1 s1 where rec: "makedirs (makedirs_head name) (octal [7, 7, 7]) s = (r1, s1)"
    by (cases "makedirs (makedirs_head name) (octal [7, 7, 7]) s")
  have cwd1: "cwd s1 = cwd s"
    using makedirs_only_adds_dirs [OF rec] by (rule only_adds_dirs_cwd)
  have "os_mkdir name mode s1 = (Inr u, s')"
    using assms True rec
    by (auto simp: makedirs.simps [of name mode s] split: sum.splits error.splits if_splits)
  from os_mkdir_ok [OF this] show ?thesis by (simp add: cwd1)
qed


lemma write_file_ok:
  assumes "write_file p body s = (Inr u, s')"
  shows "p \<noteq> [] \<and> (\<exists>m. s' = s\<lparr>fs := (fs s)(abspath (cwd s) p \<mapsto> File body m)\<rparr>)
         \<and> (\<forall>m. fs s (abspath (cwd s) p) \<noteq> Some (Dir m))"
  using assms by (auto simp: write_file_def split: if_splits option.splits node.splits)

lemma write_file_fail:
  assumes "write_file p body s = (Inl e, s')"
  shows "s' = s"
  using assms by (auto simp: write_file_def split: if_splits option.splits node.splits)

lemma os_chmod_file:
  assumes "fs s (abspath (cwd s) p) = Some (File body m)" and "p \<noteq> []"
  shows "os_chmod p mode s = (Inr (), s\<lparr>fs := (fs s)(abspath (cwd s) p \<mapsto> File body mode)\<rparr>)"
  using assms by (simp add: os_chmod_def)

text \<open>What a call of \<^verbatim>\<open>generate_config_file\<close> that writes and returns has done.\<close>

lemma generate_config_file_written:
  assumes run: "generate_config_file filename config_args known_config overwrite s = (Inr u, s')"
    and writes: "overwrite \<or> \<not> os_path_exists s filename"
  shows "\<exists>s1 config_lines.
           (if os_path_exists s (dirname (abspath (cwd s) filename)) then s1 = s
            else makedirs (dirname (abspath (cwd s) filename)) (octal [7, 5, 5]) s = (Inr (), s1))
         \<and> only_adds_dirs s s1
         \<and> render_args known_config config_args [''[Default]'', []] = Inr config_lines
         \<and> filename \<noteq> []
         \<and> (\<forall>m. fs s1 (abspath (cwd s) filename) \<noteq> Some (Dir m))
         \<and> s' = s1\<lparr>fs := (fs s1)(abspath (cwd s) filename
                      \<mapsto> File (str_join [CHR 0x0A] config_lines) (octal [6, 6, 0]))\<rparr>"
proof -
  let ?dir = "dirname (abspath (cwd s) filename)"
  let ?first = "if \<not> os_path_exists s ?dir then makedirs ?dir (octal [7, 5, 5]) s else (Inr (), s)"
  obtain r1 s1 where first: "?first = (r1, s1)" by (cases ?first)
  have grow: "only_adds_dirs s s1"
    using first by (auto simp: only_adds_dirs_refl makedirs_only_adds_dirs split: if_splits)
  have cwd1: "cwd s1 = cwd s" using grow by (rule only_adds_dirs_cwd)
  from run writes first have r1: "r1 = Inr ()"
    by (cases r1) (auto simp: generate_config_file_def and_then_def Let_def)
  obtain config_lines where lines: "render_args known_config config_args [''[Default]'', []] = Inr config_lines"
    and rest: "and_then (write_file filename (str_join [CHR 0x0A] config_lines) s1)
                 (\<lambda>u. os_chmod filename (octal [6, 6, 0])) = (Inr u, s')"
    using run writes first r1
    by (cases "render_args known_config config_args [''[Default]'', []]")
       (auto simp: generate_config_file_def and_then_def Let_def)
  obtain r2 s2 where wr: "write_file filename (str_join [CHR 0x0A] config_lines) s1 = (r2, s2)"
    by (cases "write_file filename (str_join [CHR 0x0A] config_lines) s1")
  from rest wr have r2: "r2 = Inr ()" and ch: "os_chmod filename (octal [6, 6, 0]) s2 = (Inr u, s')"
    by (cases r2; simp add: and_then_def)+
  from write_file_ok [OF wr [unfolded r2]] cwd1
  obtain m where ne: "filename \<noteq> []"
    and s2: "s2 = s1\<lparr>fs := (fs s1)(abspath (cwd s) filename \<mapsto> File (str_join [CHR 0x0A] config_lines) m)\<rparr>"
    and nodir: "\<forall>m. fs s1 (abspath (cwd s) filename) \<noteq> Some (Dir m)"
    by auto
  have "fs s2 (abspath (cwd s2) filename) = Some (File (str_join [CHR 0x0A] config_lines) m)"
    using s2 cwd1 by simp
  from os_chmod_file [OF this ne, of "octal [6, 6, 0]"] ch s2 cwd1
  have s': "s' = s1\<lparr>fs := (fs s1)(abspath (cwd s) filename
                      \<mapsto> File (str_join [CHR 0x0A] config_lines) (octal [6, 6, 0]))\<rparr>"
    by simp
  have "if os_path_exists s ?dir then s1 = s else makedirs ?dir (octal [7, 5, 5]) s = (Inr (), s1)"
    using first r1 by (auto split: if_splits)
  with grow lines ne nodir s' show ?thesis by blast
qed

lemma generate_config_file_exists_after:
  assumes "generate_config_file filename config_args known_config overwrite s = (Inr u, s')"
  shows "os_path_exists s' filename \<and> cwd s' = cwd s"
proof (cases "overwrite \<or> \<not> os_path_exists s filename")
  case True
  from generate_config_file_written [OF assms True]
  obtain s1 config_lines where grow: "only_adds_dirs s s1" and ne: "filename \<noteq> []"
    and s': "s' = s1\<lparr>fs := (fs s1)(abspath (cwd s) filename
                      \<mapsto> File (str_join [CHR 0x0A] config_lines) (octal [6, 6, 0]))\<rparr>"
    by blast
  have "cwd s1 = cwd s" using grow by (rule only_adds_dirs_cwd)
  then show ?thesis using s' ne by (simp add: os_path_exists_def)
next
  case False
  with assms have "s' = s" by (simp add: generate_config_file_def)
  with False show ?thesis by simp
qed

section \<open>Rendering a configuration file\<close>

lemmas sample_defs = sample_host_def sample_state_def sample_fs_def sample_server_args_def
  sample_client_args_def sample_bitcoin_conf_def sample_legacy_conf_def

lemmas run_defs = generate_config_file_def os_path_exists_def
  makedirs.simps makedirs_head_def makedirs_tail_def os_mkdir_def and_then_def
  entry_lines_def arg_key_def resolve_value_def str_replace_def write_file_def os_chmod_def
  octal_def

lemma sample_first_run:
  "fst (generate_config_file ''/h/cfg/server.conf'' sample_server_args Map.empty False sample_state) = Inr ()"
  by (simp add: run_defs sample_defs path_defs)

text \<open>
  Claim C4. Where a path exists, \<^verbatim>\<open>generate_config_file\<close> without \<^verbatim>\<open>overwrite\<close> returns
  normally and leaves the whole state as it was, whatever schema and values it is given.
  So after any call for a path has returned, a second call without \<^verbatim>\<open>overwrite\<close> changes
  nothing, and the text the first call wrote stays.
\<close>

theorem generate_config_file_keeps_existing:
  "(os_path_exists s filename \<longrightarrow>
      generate_config_file filename config_args known_config False s = (Inr (), s))
   \<and> (\<forall>args1 known1 overwrite1 s1.
         generate_config_file filename args1 known1 overwrite1 s = (Inr (), s1) \<longrightarrow>
         generate_config_file filename config_args known_config False s1 = (Inr (), s1))"
proof (intro conjI allI impI)
  assume "os_path_exists s filename"
  then show "generate_config_file filename config_args known_config False s = (Inr (), s)"
    by (simp add: generate_config_file_def)
next
  fix args1 known1 overwrite1 s1
  assume "generate_config_file filename args1 known1 overwrite1 s = (Inr (), s1)"
  then have "os_path_exists s1 filename"
    using generate_config_file_exists_after by blast
  then show "generate_config_file filename config_args known_config False s1 = (Inr (), s1)"
    by (simp add: generate_config_file_def)
qed

theorem generate_config_file_keeps_existing_witness:
  "generate_config_file ''/h/old/metronotesd.conf'' sample_server_args Map.empty False sample_state
     = (Inr (), sample_state)
   \<and> fst (generate_config_file ''/h/cfg/server.conf'' sample_server_args Map.empty False sample_state)
     = Inr ()
   \<and> generate_config_file ''/h/cfg/server.conf'' sample_client_args [''wallet-port'' \<mapsto> PInt 1] False
       (snd (generate_config_file ''/h/cfg/server.conf'' sample_server_args Map.empty False sample_state))
     = (Inr (), snd (generate_config_file ''/h/cfg/server.conf'' sample_server_args Map.empty False
                       sample_state))"
proof -
  have ex: "os_path_exists sample_state ''/h/old/metronotesd.conf''"
    by (simp add: os_path_exists_def sample_defs path_defs)
  let ?run = "generate_config_file ''/h/cfg/server.conf'' sample_server_args Map.empty False sample_state"
  have run: "?run = (Inr (), snd ?run)"
    using sample_first_run by (metis prod.collapse)
  from generate_config_file_keeps_existing
         [of sample_state "''/h/old/metronotesd.conf''" sample_server_args Map.empty] ex
  have a: "generate_config_file ''/h/old/metronotesd.conf'' sample_server_args Map.empty False sample_state
     = (Inr (), sample_state)"
    by blast
  from generate_config_file_keeps_existing
         [of sample_state "''/h/cfg/server.conf''" sample_client_args "[''wallet-port'' \<mapsto> PInt 1]"] run
  have b: "generate_config_file ''/h/cfg/server.conf'' sample_client_args [''wallet-port'' \<mapsto> PInt 1] False
       (snd ?run) = (Inr (), snd ?run)"
    by blast
  from a b sample_first_run show ?thesis by blast
qed






lemma sample_server_conf_missing: "\<not> os_path_exists sample_state ''/h/cfg/server.conf''"
  by (simp add: os_path_exists_def sample_defs path_defs)



section \<open>Generating both configuration files\<close>

lemma only_adds_dirs_urandom_calls: "only_adds_dirs s s' \<Longrightarrow> urandom_calls s' = urandom_calls s"
  by (metis only_adds_dirs_def state.select_convs(4) state.surjective state.update_convs(2))

lemma os_path_join_nonempty: "b \<noteq> [] \<Longrightarrow> os_path_join a b \<noteq> []"
  by (simp add: os_path_join_def)

text \<open>A call of \<^verbatim>\<open>generate_config_file\<close> that returned has kept every node but the file's.\<close>

lemma generate_config_file_frame:
  assumes run: "generate_config_file filename config_args known_config overwrite s = (Inr u, s')"
  shows "cwd s' = cwd s \<and> urandom_calls s' = urandom_calls s
       \<and> (\<forall>p n. p \<noteq> abspath (cwd s) filename \<and> fs s p = Some n \<longrightarrow> fs s' p = Some n)"
proof (cases "overwrite \<or> \<not> os_path_exists s filename")
  case True
  from generate_config_file_written [OF run True]
  obtain s1 config_lines where grow: "only_adds_dirs s s1"
    and s': "s' = s1\<lparr>fs := (fs s1)(abspath (cwd s) filename
                      \<mapsto> File (str_join [CHR 0x0A] config_lines) (octal [6, 6, 0]))\<rparr>"
    by blast
  have keep: "fs s p = Some n \<Longrightarrow> fs s1 p = Some n" for p n
    using grow by (auto simp: only_adds_dirs_def split: option.splits dest: spec [of _ p])
  show ?thesis
    using s' keep only_adds_dirs_cwd [OF grow] only_adds_dirs_urandom_calls [OF grow] by simp
next
  case False
  with run have "s' = s" by (simp add: generate_config_file_def)
  then show ?thesis by simp
qed

text \<open>A first run of \<^verbatim>\<open>generate_config_files\<close> that returned.\<close>

lemma generate_config_files_fresh:
  assumes fresh: "\<not> os_path_exists s (os_path_join (configdir h) ''server.conf'')"
    and run: "generate_config_files h s = (Inr u, s')"
  shows "\<exists>known config_lines.
           get_server_known_config h s = Inr known
         \<and> render_args (fst (random_password h known s)) (SERVER_CONFIG_ARGS h) [''[Default]'', []]
             = Inr config_lines
         \<and> fs s' (abspath (cwd s) (os_path_join (configdir h) ''server.conf''))
             = Some (File (str_join [CHR 0x0A] config_lines) (octal [6, 6, 0]))
         \<and> urandom_calls s' = urandom_calls (snd (random_password h known s))
         \<and> cwd s' = cwd s"
proof -
  let ?server = "os_path_join (configdir h) ''server.conf''"
  let ?client = "os_path_join (configdir h) ''client.conf''"
  from fresh run obtain known where known: "get_server_known_config h s = Inr known"
    by (cases "get_server_known_config h s") (auto simp: generate_config_files_def)
  let ?kp = "random_password h known s"
  have kp_fs: "fs (snd ?kp) = fs s" and kp_cwd: "cwd (snd ?kp) = cwd s"
    by (simp_all add: random_password_def)
  then have fresh0: "\<not> os_path_exists (snd ?kp) ?server"
    using fresh by (simp add: os_path_exists_def)
  obtain r2 s2 where srv: "generate_config_file ?server (SERVER_CONFIG_ARGS h) (fst ?kp) False (snd ?kp) = (r2, s2)"
    by (cases "generate_config_file ?server (SERVER_CONFIG_ARGS h) (fst ?kp) False (snd ?kp)")
  from run fresh known srv have r2: "r2 = Inr ()"
    by (cases r2) (auto simp: generate_config_files_def and_then_def Let_def)
  from run fresh known srv r2
  have cli: "(if \<not> os_path_exists s2 ?client
              then generate_config_file ?client (CLIENT_CONFIG_ARGS h)
                     (server_to_client_config (fst ?kp)) False s2
              else (Inr (), s2)) = (Inr u, s')"
    by (simp add: generate_config_files_def and_then_def Let_def)
  from generate_config_file_written [OF srv [unfolded r2]] fresh0
  obtain s1 config_lines where grow: "only_adds_dirs (snd ?kp) s1"
    and lines: "render_args (fst ?kp) (SERVER_CONFIG_ARGS h) [''[Default]'', []] = Inr config_lines"
    and s2: "s2 = s1\<lparr>fs := (fs s1)(abspath (cwd (snd ?kp)) ?server
                      \<mapsto> File (str_join [CHR 0x0A] config_lines) (octal [6, 6, 0]))\<rparr>"
    by blast
  have cwd2: "cwd s2 = cwd s"
    using s2 only_adds_dirs_cwd [OF grow] kp_cwd by simp
  have calls2: "urandom_calls s2 = urandom_calls (snd ?kp)"
    using s2 only_adds_dirs_urandom_calls [OF grow] by simp
  have file2: "fs s2 (abspath (cwd s) ?server)
      = Some (File (str_join [CHR 0x0A] config_lines) (octal [6, 6, 0]))"
    using s2 kp_cwd by simp
  have "fs s' (abspath (cwd s) ?server)
      = Some (File (str_join [CHR 0x0A] config_lines) (octal [6, 6, 0]))
      \<and> urandom_calls s' = urandom_calls s2 \<and> cwd s' = cwd s2"
  proof (cases "os_path_exists s2 ?client")
    case True
    with cli have "s' = s2" by simp
    with file2 show ?thesis by simp
  next
    case False
    with cli have c: "generate_config_file ?client (CLIENT_CONFIG_ARGS h)
                     (server_to_client_config (fst ?kp)) False s2 = (Inr u, s')"
      by simp
    have "?client \<noteq> []" by (simp add: os_path_join_nonempty)
    with False have "fs s2 (abspath (cwd s2) ?client) = None"
      by (simp add: os_path_exists_def)
    with file2 cwd2 have ne: "abspath (cwd s) ?server \<noteq> abspath (cwd s2) ?client"
      by auto
    from generate_config_file_frame [OF c] ne file2 show ?thesis by blast
  qed
  with known lines calls2 cwd2 show ?thesis by auto
qed

lemma write_file_only_fs: "write_file p body s = (r, s') \<Longrightarrow> s' = s\<lparr>fs := fs s'\<rparr>"
  by (auto simp: write_file_def split: if_splits option.splits node.splits)

lemma os_chmod_only_fs: "os_chmod p mode s = (r, s') \<Longrightarrow> s' = s\<lparr>fs := fs s'\<rparr>"
  by (auto simp: os_chmod_def split: if_splits option.splits node.splits)

lemma only_fs_trans:
  assumes "s1 = s\<lparr>fs := fs s1\<rparr>" and "s2 = s1\<lparr>fs := fs s2\<rparr>"
  shows "s2 = s\<lparr>fs := fs s2\<rparr>"
  by (metis assms state.surjective state.update_convs(2))

text \<open>Whatever its outcome, \<^verbatim>\<open>generate_config_file\<close> changes the file system only.\<close>

lemma generate_config_file_only_fs:
  assumes run: "generate_config_file filename config_args known_config overwrite s = (r, s')"
  shows "s' = s\<lparr>fs := fs s'\<rparr>"
proof (cases "\<not> overwrite \<and> os_path_exists s filename")
  case True
  with run show ?thesis by (simp add: generate_config_file_def)
next
  case False
  let ?dir = "dirname (abspath (cwd s) filename)"
  let ?first = "if \<not> os_path_exists s ?dir then makedirs ?dir (octal [7, 5, 5]) s else (Inr (), s)"
  obtain r1 s1 where first: "?first = (r1, s1)" by (cases ?first)
  have "only_adds_dirs s s1"
    using first by (auto simp: only_adds_dirs_refl makedirs_only_adds_dirs split: if_splits)
  then have s1: "s1 = s\<lparr>fs := fs s1\<rparr>" by (simp add: only_adds_dirs_def)
  have "s' = s1\<lparr>fs := fs s'\<rparr>"
  proof (cases r1)
    case (Inl e)
    with run False first show ?thesis
      by (auto simp: generate_config_file_def and_then_def Let_def)
  next
    case (Inr u1)
    show ?thesis
    proof (cases "render_args known_config config_args [''[Default]'', []]")
      case (Inl e)
      with run False first Inr show ?thesis
        by (auto simp: generate_config_file_def and_then_def Let_def)
    next
      case (Inr config_lines)
      obtain r2 s2 where wr: "write_file filename (str_join [CHR 0x0A] config_lines) s1 = (r2, s2)"
        by (cases "write_file filename (str_join [CHR 0x0A] config_lines) s1")
      have s2: "s2 = s1\<lparr>fs := fs s2\<rparr>" using wr by (rule write_file_only_fs)
      show ?thesis
      proof (cases r2)
        case (Inl e)
        with run False first \<open>r1 = Inr u1\<close> Inr wr have "s' = s2"
          by (auto simp: generate_config_file_def and_then_def Let_def)
        with s2 show ?thesis by simp
      next
        case (Inr u2)
        with run False first \<open>r1 = Inr u1\<close> \<open>render_args known_config config_args [''[Default]'', []] = Inr config_lines\<close> wr
        have "os_chmod filename (octal [6, 6, 0]) s2 = (r, s')"
          by (auto simp: generate_config_file_def and_then_def Let_def)
        then have "s' = s2\<lparr>fs := fs s'\<rparr>" by (rule os_chmod_only_fs)
        with s2 show ?thesis by (rule only_fs_trans [rotated -1, rotated])
      qed
    qed
  qed
  with s1 show ?thesis by (rule only_fs_trans)
qed

lemma generate_config_files_urandom_calls:
  assumes fresh: "\<not> os_path_exists s (os_path_join (configdir h) ''server.conf'')"
    and known: "get_server_known_config h s = Inr known"
  shows "urandom_calls (snd (generate_config_files h s))
       = urandom_calls (snd (random_password h known s))"
proof -
  let ?server = "os_path_join (configdir h) ''server.conf''"
  let ?client = "os_path_join (configdir h) ''client.conf''"
  let ?kp = "random_password h known s"
  obtain r2 s2 where srv: "generate_config_file ?server (SERVER_CONFIG_ARGS h) (fst ?kp) False (snd ?kp) = (r2, s2)"
    by (cases "generate_config_file ?server (SERVER_CONFIG_ARGS h) (fst ?kp) False (snd ?kp)")
  have c2: "urandom_calls s2 = urandom_calls (snd ?kp)"
    using generate_config_file_only_fs [OF srv]
    by (metis state.select_convs(4) state.surjective state.update_convs(2))
  show ?thesis
  proof (cases r2)
    case (Inl e)
    with fresh known srv c2 show ?thesis
      by (simp add: generate_config_files_def and_then_def Let_def)
  next
    case (Inr u2)
    obtain r3 s3 where cli: "generate_config_file ?client (CLIENT_CONFIG_ARGS h)
                     (server_to_client_config (fst ?kp)) False s2 = (r3, s3)"
      by (cases "generate_config_file ?client (CLIENT_CONFIG_ARGS h)
                     (server_to_client_config (fst ?kp)) False s2")
    have c3: "urandom_calls s3 = urandom_calls s2"
      using generate_config_file_only_fs [OF cli]
      by (metis state.select_convs(4) state.surjective state.update_convs(2))
    from fresh known srv Inr cli c2 c3 show ?thesis
      by (simp add: generate_config_files_def and_then_def Let_def)
  qed
qed

text \<open>
  Claim C3. Let \<^verbatim>\<open>server.conf\<close> be missing and the merged known configuration have no
  \<^verbatim>\<open>rpc-password\<close>. Then the run calls \<^verbatim>\<open>os.urandom\<close> exactly once, and if it returns,
  the \<^verbatim>\<open>server.conf\<close> it leaves is rendered from the known configuration with
  \<^verbatim>\<open>rpc-password\<close> set to the hex encoding of the digest of these sixteen random bytes.
  Where \<^verbatim>\<open>server.conf\<close> exists, the run returns at once with the state unchanged. So after
  any run that returned, a further run changes nothing, and the two together have called
  \<^verbatim>\<open>os.urandom\<close> at most once.
\<close>

theorem rpc_password_generated_once:
  "(\<forall>known.
       \<not> os_path_exists s (os_path_join (configdir h) ''server.conf'')
     \<and> get_server_known_config h s = Inr known \<and> known ''rpc-password'' = None \<longrightarrow>
       urandom_calls (snd (generate_config_files h s)) = Suc (urandom_calls s)
     \<and> (\<forall>u s'. generate_config_files h s = (Inr u, s') \<longrightarrow>
          (\<exists>config_lines.
             render_args
               (known(''rpc-password''
                  \<mapsto> PStr (hexlify h (dhash h (urandom h (urandom_calls s) 16)))))
               (SERVER_CONFIG_ARGS h) [''[Default]'', []] = Inr config_lines
           \<and> fs s' (abspath (cwd s) (os_path_join (configdir h) ''server.conf''))
               = Some (File (str_join [CHR 0x0A] config_lines) (octal [6, 6, 0])))))
   \<and> (os_path_exists s (os_path_join (configdir h) ''server.conf'') \<longrightarrow>
        generate_config_files h s = (Inr (), s))
   \<and> (\<forall>u s'. generate_config_files h s = (Inr u, s') \<longrightarrow>
        generate_config_files h s' = (Inr (), s') \<and> urandom_calls s' \<le> Suc (urandom_calls s))"
proof (intro conjI allI impI)
  fix known
  assume a: "\<not> os_path_exists s (os_path_join (configdir h) ''server.conf'')
     \<and> get_server_known_config h s = Inr known \<and> known ''rpc-password'' = None"
  then have pw: "random_password h known s
      = (known(''rpc-password'' \<mapsto> PStr (hexlify h (dhash h (urandom h (urandom_calls s) 16)))),
         s\<lparr>urandom_calls := Suc (urandom_calls s)\<rparr>)"
    by (simp add: random_password_def)
  from a generate_config_files_urandom_calls [of s h known]
  show "urandom_calls (snd (generate_config_files h s)) = Suc (urandom_calls s)"
    by (simp add: pw)
  fix u s'
  assume run: "generate_config_files h s = (Inr u, s')"
  from a run generate_config_files_fresh [of s h u s']
  obtain config_lines where
    "render_args (fst (random_password h known s)) (SERVER_CONFIG_ARGS h) [''[Default]'', []]
             = Inr config_lines"
    "fs s' (abspath (cwd s) (os_path_join (configdir h) ''server.conf''))
             = Some (File (str_join [CHR 0x0A] config_lines) (octal [6, 6, 0]))"
    by auto
  then show "\<exists>config_lines.
           render_args
             (known(''rpc-password''
                \<mapsto> PStr (hexlify h (dhash h (urandom h (urandom_calls s) 16)))))
             (SERVER_CONFIG_ARGS h) [''[Default]'', []] = Inr config_lines
         \<and> fs s' (abspath (cwd s) (os_path_join (configdir h) ''server.conf''))
             = Some (File (str_join [CHR 0x0A] config_lines) (octal [6, 6, 0]))"
    by (simp add: pw)
next
  assume "os_path_exists s (os_path_join (configdir h) ''server.conf'')"
  then show "generate_config_files h s = (Inr (), s)"
    by (simp add: generate_config_files_def)
next
  fix u s'
  assume run: "generate_config_files h s = (Inr u, s')"
  have "os_path_exists s' (os_path_join (configdir h) ''server.conf'')
      \<and> urandom_calls s' \<le> Suc (urandom_calls s)"
  proof (cases "os_path_exists s (os_path_join (configdir h) ''server.conf'')")
    case True
    with run have "s' = s" by (simp add: generate_config_files_def)
    with True show ?thesis by simp
  next
    case False
    from generate_config_files_fresh [OF False run]
    obtain known config_lines where
      f: "fs s' (abspath (cwd s) (os_path_join (configdir h) ''server.conf''))
             = Some (File (str_join [CHR 0x0A] config_lines) (octal [6, 6, 0]))"
      and c: "urandom_calls s' = urandom_calls (snd (random_password h known s))"
      and w: "cwd s' = cwd s"
      by blast
    have "urandom_calls (snd (random_password h known s)) \<le> Suc (urandom_calls s)"
      by (simp add: random_password_def)
    with f c w show ?thesis
      by (simp add: os_path_exists_def os_path_join_nonempty)
  qed
  then show "generate_config_files h s' = (Inr (), s')"
    and "urandom_calls s' \<le> Suc (urandom_calls s)"
    by (simp_all add: generate_config_files_def)
qed

text \<open>
  Claim C10. Where \<^verbatim>\<open>server.conf\<close> exists, \<^verbatim>\<open>generate_config_files\<close> returns with the state
  unchanged; a \<^verbatim>\<open>client.conf\<close> that is missing before the call is missing after it.
\<close>

theorem existing_server_conf_skips_client_conf:
  assumes "os_path_exists s (os_path_join (configdir h) ''server.conf'')"
  shows "generate_config_files h s = (Inr (), s)
       \<and> (\<not> os_path_exists s (os_path_join (configdir h) ''client.conf'') \<longrightarrow>
            \<not> os_path_exists (snd (generate_config_files h s))
                (os_path_join (configdir h) ''client.conf''))"
  using assms by (simp add: generate_config_files_def)


lemma sample_known:
  "get_server_known_config sample_host sample_state
   = Inr [''backend-port'' \<mapsto> PStr ''8333'', ''backend-user'' \<mapsto> PStr ''alice'']"
  by (simp add: get_server_known_config_def sample_bitcoincore sample_old merge_known_config_def
      map_add_def fun_eq_iff)

lemma sample_host_fields:
  "configdir sample_host = ''/h/cfg''"
  "SERVER_CONFIG_ARGS sample_host = sample_server_args"
  "CLIENT_CONFIG_ARGS sample_host = sample_client_args"
  "data_dir sample_host = ''/h/data''"
  "APP_NAME sample_host = ''metronotes''"
  by (simp_all add: sample_host_def)

lemma sample_password:
  "hexlify sample_host (dhash sample_host (urandom sample_host 0 16)) = ''0000000000000000''"
  by code_simp

lemma sample_fresh:
  "\<not> os_path_exists sample_state (os_path_join (configdir sample_host) ''server.conf'')"
  by (simp add: os_path_exists_def sample_defs path_defs)

lemma sample_files_run: "fst (generate_config_files sample_host sample_state) = Inr ()"
  apply (simp add: generate_config_files_def sample_known sample_fresh)
  apply (simp add: sample_host_fields sample_password random_password_def
      server_to_client_config_def client_config_keys_def run_defs path_defs
      sample_state_def sample_fs_def sample_server_args_def sample_client_args_def)
  done

theorem rpc_password_generated_once_witness:
  "urandom_calls (snd (generate_config_files sample_host sample_state)) = 1
   \<and> generate_config_files sample_host (snd (generate_config_files sample_host sample_state))
     = (Inr (), snd (generate_config_files sample_host sample_state))
   \<and> generate_config_files sample_host sample_installed_state = (Inr (), sample_installed_state)"
proof -
  let ?run = "generate_config_files sample_host sample_state"
  have run: "?run = (Inr (), snd ?run)"
    using sample_files_run by (metis prod.collapse)
  have there: "os_path_exists sample_installed_state
      (os_path_join (configdir sample_host) ''server.conf'')"
    by (simp add: os_path_exists_def sample_installed_state_def sample_defs path_defs)
  have none: "[''backend-port'' \<mapsto> PStr ''8333'', ''backend-user'' \<mapsto> PStr ''alice''] ''rpc-password''
      = None"
    by simp
  have calls: "urandom_calls sample_state = 0"
    by (simp add: sample_state_def)
  note first = rpc_password_generated_once [of sample_state sample_host]
  from first sample_fresh sample_known none
  have a: "urandom_calls (snd ?run) = Suc (urandom_calls sample_state)"
    by blast
  from first run have b: "generate_config_files sample_host (snd ?run) = (Inr (), snd ?run)"
    by blast
  from rpc_password_generated_once [of sample_installed_state sample_host] there
  have c: "generate_config_files sample_host sample_installed_state = (Inr (), sample_installed_state)"
    by blast
  from a b c calls show ?thesis by simp
qed

theorem existing_server_conf_skips_client_conf_witness:
  "generate_config_files sample_host sample_installed_state = (Inr (), sample_installed_state)
   \<and> \<not> os_path_exists sample_installed_state ''/h/cfg/client.conf''
   \<and> \<not> os_path_exists (snd (generate_config_files sample_host sample_installed_state))
         ''/h/cfg/client.conf''"
proof -
  have there: "os_path_exists sample_installed_state
      (os_path_join (configdir sample_host) ''server.conf'')"
    by (simp add: os_path_exists_def sample_installed_state_def sample_defs path_defs)
  have client: "os_path_join (configdir sample_host) ''client.conf'' = ''/h/cfg/client.conf''"
    by (simp add: sample_defs path_defs)
  have absent: "\<not> os_path_exists sample_installed_state ''/h/cfg/client.conf''"
    by (simp add: os_path_exists_def sample_installed_state_def sample_defs path_defs)
  from existing_server_conf_skips_client_conf [OF there] absent client
  show ?thesis by simp
qed

section \<open>The check before extraction\<close>

lemma check_members_rejects:
  "check_members wd path members = Inl e \<Longrightarrow> e = PathTraversal"
  by (induction members) (auto split: if_splits)

lemma check_members_iff:
  "(check_members wd path members = Inl PathTraversal)
   = (\<exists>name \<in> set members. \<not> is_within_directory wd path (os_path_join path name))"
  by (induction members) auto

text \<open>
  The pass over the members comes before any extraction: one member that fails the
  test makes \<^verbatim>\<open>safe_extract\<close> raise with the state untouched.
\<close>

lemma safe_extract_rejects_before_extracting:
  assumes "name \<in> set (getmembers tar)"
    and "\<not> is_within_directory (cwd s) path (os_path_join path name)"
  shows "safe_extract h tar path s = (Inl PathTraversal, s)"
proof -
  have "check_members (cwd s) path (getmembers tar) = Inl PathTraversal"
    using assms check_members_iff by blast
  then show ?thesis by (simp add: safe_extract_def)
qed

lemma safe_extract_rejects_examples:
  "\<not> is_within_directory ''/srv/data'' ''.'' (os_path_join ''.'' ''../../etc/passwd'')"
  "\<not> is_within_directory ''/srv/data'' ''.'' (os_path_join ''.'' ''/etc/passwd'')"
  by (simp_all add: is_within_directory_def path_defs)

text \<open>
  Claim C1, on the code. With the working directory \<^verbatim>\<open>/srv/data\<close> as destination root,
  the member name \<^verbatim>\<open>../database/evil.db\<close> resolves to \<^verbatim>\<open>/srv/database/evil.db\<close>, which is
  outside the root. The root is still a prefix of it character by character, so
  \<^verbatim>\<open>is_within_directory\<close> answers yes, \<^verbatim>\<open>safe_extract\<close> raises nothing and hands the archive
  to \<^verbatim>\<open>extractall\<close>.
\<close>

theorem safe_extract_accepts_sibling_directory:
  "abspath ''/srv/data'' ''.'' = ''/srv/data''
   \<and> abspath ''/srv/data'' (os_path_join ''.'' ''../database/evil.db'') = ''/srv/database/evil.db''
   \<and> \<not> resolves_inside ''/srv/data'' ''.'' (os_path_join ''.'' ''../database/evil.db'')
   \<and> is_within_directory ''/srv/data'' ''.'' (os_path_join ''.'' ''../database/evil.db'')
   \<and> safe_extract h \<lparr>tar_text = archive, getmembers = [''../database/evil.db'']\<rparr> ''.''
        (s\<lparr>cwd := ''/srv/data''\<rparr>)
      = extractall h archive ''.'' (s\<lparr>cwd := ''/srv/data''\<rparr>)"
proof -
  have a: "abspath ''/srv/data'' ''.'' = ''/srv/data''"
    by (simp add: path_defs)
  have b: "abspath ''/srv/data'' (os_path_join ''.'' ''../database/evil.db'') = ''/srv/database/evil.db''"
    by (simp add: path_defs)
  have c: "\<not> resolves_inside ''/srv/data'' ''.'' (os_path_join ''.'' ''../database/evil.db'')"
    unfolding resolves_inside_def a b by (simp add: rstrip_slash_def)
  have d: "is_within_directory ''/srv/data'' ''.'' (os_path_join ''.'' ''../database/evil.db'')"
    unfolding is_within_directory_def Let_def a b by simp
  have e: "safe_extract h \<lparr>tar_text = archive, getmembers = [''../database/evil.db'']\<rparr> ''.''
        (s\<lparr>cwd := ''/srv/data''\<rparr>)
      = extractall h archive ''.'' (s\<lparr>cwd := ''/srv/data''\<rparr>)"
    using d by (simp add: safe_extract_def)
  from a b c d e show ?thesis by blast
qed

theorem safe_extract_accepts_sibling_directory_witness:
  "safe_extract sample_host \<lparr>tar_text = ''tar'', getmembers = [''../database/evil.db'']\<rparr> ''.''
        (sample_state\<lparr>cwd := ''/srv/data''\<rparr>)
      = (Inr (), sample_state\<lparr>cwd := ''/srv/data''\<rparr>)"
  using safe_extract_accepts_sibling_directory [of sample_host "''tar''" sample_state]
  by (simp add: sample_host_def)

section \<open>Declining the confirmation of \<^verbatim>\<open>bootstrap\<close>\<close>

lemma only_adds_dirs_stdin: "only_adds_dirs s s' \<Longrightarrow> stdin s' = stdin s"
  by (metis only_adds_dirs_def state.select_convs(3) state.surjective state.update_convs(2))

text \<open>
  Claim C5, as amended. Let confirmation be asked and the answer read from the prompt,
  in lower case, be other than \<^verbatim>\<open>y\<close>. If the data directory exists, \<^verbatim>\<open>bootstrap\<close> returns
  normally and the file system is as before: nothing is downloaded, extracted, created
  or modified. If the data directory is missing, \<^verbatim>\<open>os.makedirs\<close> runs before the prompt:
  it only adds directories, its error is the error of \<^verbatim>\<open>bootstrap\<close>, and after its success
  \<^verbatim>\<open>bootstrap\<close> returns normally with nothing else changed in the file system.
\<close>

theorem bootstrap_declined:
  assumes "stdin s = answer # rest" and "str_lower answer \<noteq> ''y''"
  shows "(os_path_exists s (data_dir h) \<longrightarrow>
           (\<exists>s'. bootstrap h overwrite True s = (Inr (), s') \<and> fs s' = fs s \<and> cwd s' = cwd s))
       \<and> (\<not> os_path_exists s (data_dir h) \<longrightarrow>
           (\<exists>r s1. makedirs (data_dir h) (octal [7, 5, 5]) s = (r, s1) \<and> only_adds_dirs s s1
              \<and> (case r of
                    Inl e \<Rightarrow> bootstrap h overwrite True s = (Inl e, s1)
                  | Inr u \<Rightarrow> (\<exists>s'. bootstrap h overwrite True s = (Inr (), s')
                               \<and> fs s' = fs s1 \<and> cwd s' = cwd s))))"
proof (intro conjI impI)
  assume "os_path_exists s (data_dir h)"
  then show "\<exists>s'. bootstrap h overwrite True s = (Inr (), s') \<and> fs s' = fs s \<and> cwd s' = cwd s"
    using assms by (auto simp: bootstrap_def and_then_def input_line_def)
next
  assume missing: "\<not> os_path_exists s (data_dir h)"
  obtain r s1 where mk: "makedirs (data_dir h) (octal [7, 5, 5]) s = (r, s1)"
    by (cases "makedirs (data_dir h) (octal [7, 5, 5]) s")
  have grow: "only_adds_dirs s s1"
    using mk by (rule makedirs_only_adds_dirs)
  have same: "stdin s1 = stdin s" "cwd s1 = cwd s"
    using grow by (simp_all add: only_adds_dirs_stdin only_adds_dirs_cwd)
  have "case r of
          Inl e \<Rightarrow> bootstrap h overwrite True s = (Inl e, s1)
        | Inr u \<Rightarrow> (\<exists>s'. bootstrap h overwrite True s = (Inr (), s')
                     \<and> fs s' = fs s1 \<and> cwd s' = cwd s)"
  proof (cases r)
    case (Inl e)
    then show ?thesis
      using missing mk by (simp add: bootstrap_def and_then_def)
  next
    case (Inr u)
    have "stdin s1 = answer # rest" using assms same by simp
    then show ?thesis
      using Inr missing mk same assms(2)
      by (auto simp: bootstrap_def and_then_def input_line_def)
  qed
  with mk grow
  show "\<exists>r s1. makedirs (data_dir h) (octal [7, 5, 5]) s = (r, s1) \<and> only_adds_dirs s s1
              \<and> (case r of
                    Inl e \<Rightarrow> bootstrap h overwrite True s = (Inl e, s1)
                  | Inr u \<Rightarrow> (\<exists>s'. bootstrap h overwrite True s = (Inr (), s')
                               \<and> fs s' = fs s1 \<and> cwd s' = cwd s))"
    by blast
qed

lemma sample_bootstrap:
  "bootstrap sample_host True True sample_state
   = (Inr (), sample_state\<lparr>fs := sample_fs(''/h/data'' \<mapsto> Dir (octal [7, 5, 5])), stdin := []\<rparr>)"
  by (simp add: bootstrap_def sample_host_fields and_then_def input_line_def str_lower_def
      lower_char_def os_path_exists_def makedirs.simps makedirs_head_def makedirs_tail_def
      os_mkdir_def path_defs sample_state_def sample_fs_def octal_def)

text \<open>
  Claim C5 as stated fails: in the sample installation the data directory is missing
  and the answer is \<^verbatim>\<open>n\<close>; \<^verbatim>\<open>bootstrap\<close> returns normally, and the directory is there.
\<close>

theorem bootstrap_declined_creates_data_dir:
  "stdin sample_state = [''n'']
   \<and> fs sample_state ''/h/data'' = None
   \<and> fst (bootstrap sample_host True True sample_state) = Inr ()
   \<and> fs (snd (bootstrap sample_host True True sample_state)) ''/h/data''
     = Some (Dir (octal [7, 5, 5]))"
  by (simp add: sample_bootstrap) (simp add: sample_state_def sample_fs_def)

theorem bootstrap_declined_witness:
  "bootstrap sample_host True True (sample_state\<lparr>fs := sample_fs(''/h/data'' \<mapsto> Dir (octal [7, 5, 5]))\<rparr>)
   = (Inr (), sample_state\<lparr>fs := sample_fs(''/h/data'' \<mapsto> Dir (octal [7, 5, 5])), stdin := []\<rparr>)
   \<and> fst (bootstrap sample_host True True sample_state) = Inr ()"
proof -
  let ?s = "sample_state\<lparr>fs := sample_fs(''/h/data'' \<mapsto> Dir (octal [7, 5, 5]))\<rparr>"
  have stdin1: "stdin ?s = ''n'' # []" and stdin0: "stdin sample_state = ''n'' # []"
    by (simp_all add: sample_state_def)
  have no: "str_lower ''n'' \<noteq> ''y''"
    by (simp add: str_lower_def lower_char_def)
  have there: "os_path_exists ?s (data_dir sample_host)"
    by (simp add: os_path_exists_def sample_host_fields sample_state_def path_defs)
  have missing: "\<not> os_path_exists sample_state (data_dir sample_host)"
    by (simp add: os_path_exists_def sample_host_fields sample_state_def sample_fs_def path_defs)
  from bootstrap_declined [OF stdin1 no, of sample_host True] there
  obtain s' where run: "bootstrap sample_host True True ?s = (Inr (), s')"
    by blast
  have a: "bootstrap sample_host True True ?s
      = (Inr (), sample_state\<lparr>fs := sample_fs(''/h/data'' \<mapsto> Dir (octal [7, 5, 5])), stdin := []\<rparr>)"
    using run
    by (simp add: bootstrap_def sample_host_fields and_then_def input_line_def str_lower_def
      lower_char_def os_path_exists_def path_defs sample_state_def sample_fs_def octal_def)
  from bootstrap_declined [OF stdin0 no, of sample_host True] missing
  have b: "fst (bootstrap sample_host True True sample_state) = Inr ()"
    by (auto simp: sample_bootstrap)
  from a b show ?thesis by blast
qed

section \<open>The components of a normalised path\<close>

lemma str_split_no_sep: "c \<in> set (str_split sep p) \<Longrightarrow> sep \<notin> set c"
proof (induction p arbitrary: c)
  case Nil
  then show ?case by simp
next
  case (Cons x p)
  then show ?case
    by (cases "str_split sep p") (auto split: if_splits)
qed

lemma clean_butlast: "clean cs \<Longrightarrow> clean (butlast cs)"
  by (auto simp: clean_def dest: in_set_butlastD)

lemma norm_step_clean:
  assumes "clean acc" and "CHR ''/'' \<notin> set part"
  shows "clean (norm_step init acc part)"
proof -
  have "clean (acc @ [part])" if "part \<noteq> []" and "part \<noteq> ''.''"
    using assms that by (simp add: clean_def)
  moreover have "clean (acc @ [''..''])"
    using assms by (simp add: clean_def)
  ultimately show ?thesis
    using assms clean_butlast [OF assms(1)] by (auto simp: norm_step_def)
qed

lemma foldl_norm_step_clean:
  assumes "clean acc" and "\<forall>c \<in> set parts. CHR ''/'' \<notin> set c"
  shows "clean (foldl (norm_step init) acc parts)"
  using assms
proof (induction parts arbitrary: acc)
  case Nil
  then show ?case by simp
next
  case (Cons part parts)
  then show ?case by (simp add: norm_step_clean)
qed

lemma normpath_form:
  "normpath p = ''.'' \<or> (\<exists>i cs. clean cs \<and> normpath p = slashed i cs)"
proof -
  let ?init = "initial_slashes p"
  let ?cs = "foldl (norm_step ?init) [] (str_split CHR ''/'' p)"
  have "clean ?cs"
    by (rule foldl_norm_step_clean) (auto simp: clean_def str_split_no_sep)
  then show ?thesis
    by (auto simp: normpath_def Let_def slashed_def)
qed

lemma str_join_snoc:
  "str_join sep (cs @ [c]) = (if cs = [] then c else str_join sep cs @ sep @ c)"
  by (induction sep cs rule: str_join.induct) simp_all

lemma str_join_clean_end:
  assumes "clean cs" and "cs \<noteq> []"
  shows "str_join ''/'' cs \<noteq> [] \<and> last (str_join ''/'' cs) \<noteq> CHR ''/''"
proof -
  from assms(2) obtain cs0 c where cs: "cs = cs0 @ [c]"
    by (metis rev_exhaust)
  with assms(1) have c: "c \<noteq> []" "CHR ''/'' \<notin> set c"
    by (simp_all add: clean_def)
  then have "last c \<noteq> CHR ''/''"
    using last_in_set by metis
  with c show ?thesis
    by (simp add: cs str_join_snoc)
qed

lemma path_tail_snoc:
  assumes "CHR ''/'' \<notin> set c" and "X = [] \<or> last X = CHR ''/''"
  shows "path_tail (X @ c) = c"
proof -
  let ?P = "\<lambda>x. x \<noteq> CHR ''/''"
  have "takeWhile ?P (rev c @ rev X) = rev c @ takeWhile ?P (rev X)"
    using assms(1) by (intro takeWhile_append2) auto
  moreover have "takeWhile ?P (rev X) = []"
    using assms(2) by (cases "rev X") (auto simp: last_rev [symmetric] hd_rev)
  ultimately show ?thesis by (simp add: path_tail_def)
qed

lemma path_head_raw_snoc:
  assumes "CHR ''/'' \<notin> set c" and "X = [] \<or> last X = CHR ''/''"
  shows "rev (dropWhile (\<lambda>x. x \<noteq> CHR ''/'') (rev (X @ c))) = X"
proof -
  let ?P = "\<lambda>x. x \<noteq> CHR ''/''"
  have "dropWhile ?P (rev c @ rev X) = dropWhile ?P (rev X)"
    using assms(1) by (intro dropWhile_append2) auto
  moreover have "dropWhile ?P (rev X) = rev X"
    using assms(2) by (cases "rev X") (auto simp: hd_rev)
  ultimately show ?thesis by simp
qed

lemma rstrip_slash_replicate: "rstrip_slash (replicate i CHR ''/'') = []"
  by (simp add: rstrip_slash_def dropWhile_eq_Nil_conv)

lemma rstrip_slash_end:
  assumes "Y \<noteq> []" and "last Y \<noteq> CHR ''/''"
  shows "rstrip_slash (Y @ ''/'') = Y" and "rstrip_slash Y = Y"
proof -
  from assms have "hd (rev Y) \<noteq> CHR ''/''" and "rev Y \<noteq> []"
    by (simp_all add: hd_rev)
  then have "dropWhile (\<lambda>c. c = CHR ''/'') (rev Y) = rev Y"
    by (cases "rev Y") auto
  then show "rstrip_slash (Y @ ''/'') = Y" and "rstrip_slash Y = Y"
    by (simp_all add: rstrip_slash_def)
qed

lemma slashed_end:
  assumes "clean cs" and "cs \<noteq> []"
  shows "slashed i cs \<noteq> [] \<and> last (slashed i cs) \<noteq> CHR ''/''"
  using str_join_clean_end [OF assms] by (simp add: slashed_def)

lemma slashed_snoc:
  "slashed i (cs @ [c]) = (if cs = [] then replicate i CHR ''/'' else slashed i cs @ ''/'') @ c"
  by (simp add: slashed_def str_join_snoc)

lemma path_tail_slashed:
  assumes "clean cs"
  shows "path_tail (slashed i cs) = (if cs = [] then [] else last cs)"
proof (cases cs rule: rev_cases)
  case Nil
  have "takeWhile (\<lambda>x. x \<noteq> CHR ''/'') (replicate i CHR ''/'') = []"
    by (cases i) simp_all
  then show ?thesis
    using Nil by (simp add: slashed_def path_tail_def)
next
  case (snoc cs0 c)
  let ?X = "if cs0 = [] then replicate i CHR ''/'' else slashed i cs0 @ ''/''"
  have c: "CHR ''/'' \<notin> set c" using assms snoc by (simp add: clean_def)
  have "?X = [] \<or> last ?X = CHR ''/''"
    by (cases i) auto
  from path_tail_snoc [OF c this] show ?thesis
    using snoc by (simp add: slashed_snoc)
qed

lemma path_head_slashed:
  assumes "clean cs"
  shows "path_head (slashed i cs) = slashed i (butlast cs)"
proof (cases cs rule: rev_cases)
  case Nil
  have "dropWhile (\<lambda>x. x \<noteq> CHR ''/'') (replicate i CHR ''/'') = replicate i CHR ''/''"
    by (cases i) simp_all
  then show ?thesis
    using Nil by (simp add: slashed_def path_head_def rstrip_slash_replicate)
next
  case (snoc cs0 c)
  let ?X = "if cs0 = [] then replicate i CHR ''/'' else slashed i cs0 @ ''/''"
  have c: "CHR ''/'' \<notin> set c" using assms snoc by (simp add: clean_def)
  have "?X = [] \<or> last ?X = CHR ''/''"
    by (cases i) auto
  from path_head_raw_snoc [OF c this]
  have raw: "rev (dropWhile (\<lambda>x. x \<noteq> CHR ''/'') (rev (slashed i cs))) = ?X"
    using snoc by (simp add: slashed_snoc)
  show ?thesis
  proof (cases "cs0 = []")
    case True
    then show ?thesis
      using raw snoc by (simp add: path_head_def rstrip_slash_replicate slashed_def)
  next
    case False
    have "clean cs0" using assms snoc by (simp add: clean_def)
    from slashed_end [OF this False, of i]
    have "rstrip_slash (slashed i cs0 @ ''/'') = slashed i cs0" and "slashed i cs0 \<noteq> []"
      by (simp_all add: rstrip_slash_end)
    then show ?thesis
      using raw snoc False by (simp add: path_head_def)
  qed
qed

lemma makedirs_tail_slashed:
  assumes "clean cs"
  shows "makedirs_tail (slashed i cs) \<noteq> ''.''"
proof (cases "cs = []")
  case True
  then show ?thesis
    using path_tail_slashed [OF assms, of i] path_head_slashed [OF assms, of i]
    by (simp add: makedirs_tail_def)
next
  case False
  then have "last cs \<in> set cs" by simp
  then have "last cs \<noteq> [] \<and> last cs \<noteq> ''.''"
    using assms by (simp add: clean_def)
  then show ?thesis
    using False path_tail_slashed [OF assms, of i] by (simp add: makedirs_tail_def)
qed

lemma makedirs_tail_dirname_abspath: "makedirs_tail (dirname (abspath wd f)) \<noteq> ''.''"
proof -
  let ?q = "abspath wd f"
  from normpath_form [of "if isabs f then f else os_path_join wd f"]
  consider "?q = ''.''" | i cs where "clean cs" "?q = slashed i cs"
    by (auto simp: abspath_def)
  then show ?thesis
  proof cases
    case 1
    then show ?thesis
      by (simp add: dirname_def path_head_def path_tail_def rstrip_slash_def makedirs_tail_def)
  next
    case 2
    then have "dirname ?q = slashed i (butlast cs)"
      by (simp add: dirname_def path_head_slashed)
    then show ?thesis
      using makedirs_tail_slashed [OF clean_butlast [OF 2(1)], of i] by simp
  qed
qed

section \<open>The modes of the configuration file and its directory\<close>

lemma mode_digits:
  "owner_bits (octal [6, 6, 0]) = 6" "group_bits (octal [6, 6, 0]) = 6" "other_bits (octal [6, 6, 0]) = 0"
  "owner_bits (octal [7, 5, 5]) = 7" "group_bits (octal [7, 5, 5]) = 5" "other_bits (octal [7, 5, 5]) = 5"
  by (simp_all add: owner_bits_def group_bits_def other_bits_def octal_def)

text \<open>
  Claim C7, as amended. When \<^verbatim>\<open>generate_config_file\<close> writes and returns, the file has
  mode \<^verbatim>\<open>0o660\<close>: read and write for owner and group, nothing for others, no execute
  bit. A parent directory that was missing is created with mode \<^verbatim>\<open>0o755\<close>: all access for
  the owner, read and traverse for the group and for others.
\<close>

theorem config_file_and_directory_modes:
  assumes run: "generate_config_file filename config_args known_config overwrite s = (Inr u, s')"
    and writes: "overwrite \<or> \<not> os_path_exists s filename"
  shows "(\<exists>body. fs s' (abspath (cwd s) filename) = Some (File body (octal [6, 6, 0])))
       \<and> owner_bits (octal [6, 6, 0]) = 6 \<and> group_bits (octal [6, 6, 0]) = 6
       \<and> other_bits (octal [6, 6, 0]) = 0
       \<and> (\<not> os_path_exists s (dirname (abspath (cwd s) filename)) \<longrightarrow>
            fs s' (abspath (cwd s) (dirname (abspath (cwd s) filename)))
            = Some (Dir (octal [7, 5, 5])))
       \<and> owner_bits (octal [7, 5, 5]) = 7 \<and> group_bits (octal [7, 5, 5]) = 5
       \<and> other_bits (octal [7, 5, 5]) = 5"
proof -
  let ?dir = "dirname (abspath (cwd s) filename)"
  from generate_config_file_written [OF run writes]
  obtain s1 config_lines where
    first: "if os_path_exists s ?dir then s1 = s
            else makedirs ?dir (octal [7, 5, 5]) s = (Inr (), s1)"
    and nodir: "\<forall>m. fs s1 (abspath (cwd s) filename) \<noteq> Some (Dir m)"
    and s': "s' = s1\<lparr>fs := (fs s1)(abspath (cwd s) filename
                      \<mapsto> File (str_join [CHR 0x0A] config_lines) (octal [6, 6, 0]))\<rparr>"
    by blast
  have written: "\<exists>body. fs s' (abspath (cwd s) filename) = Some (File body (octal [6, 6, 0]))"
    using s' by simp
  have made: "fs s' (abspath (cwd s) ?dir) = Some (Dir (octal [7, 5, 5]))"
    if missing: "\<not> os_path_exists s ?dir"
  proof -
    from first missing have "makedirs ?dir (octal [7, 5, 5]) s = (Inr (), s1)"
      by simp
    from makedirs_leaf [OF this makedirs_tail_dirname_abspath]
    have leaf: "fs s1 (abspath (cwd s) ?dir) = Some (Dir (octal [7, 5, 5]))" .
    with nodir have "abspath (cwd s) ?dir \<noteq> abspath (cwd s) filename"
      by metis
    with leaf s' show ?thesis by simp
  qed
  from written made mode_digits show ?thesis by blast
qed

lemma sample_config_run:
  "generate_config_file ''/h/cfg/server.conf'' sample_server_args Map.empty False sample_state
   = (Inr (), snd (generate_config_file ''/h/cfg/server.conf'' sample_server_args Map.empty False
                     sample_state))"
  using sample_first_run by (metis prod.collapse)

theorem config_file_and_directory_modes_witness:
  "(\<exists>body. fs (snd (generate_config_file ''/h/cfg/server.conf'' sample_server_args Map.empty False
                       sample_state)) ''/h/cfg/server.conf''
            = Some (File body (octal [6, 6, 0])))
   \<and> fs (snd (generate_config_file ''/h/cfg/server.conf'' sample_server_args Map.empty False
                sample_state)) ''/h/cfg''
     = Some (Dir (octal [7, 5, 5]))"
proof -
  have writes: "False \<or> \<not> os_path_exists sample_state ''/h/cfg/server.conf''"
    using sample_server_conf_missing by simp
  have fpath: "abspath (cwd sample_state) ''/h/cfg/server.conf'' = ''/h/cfg/server.conf''"
    and dir: "dirname ''/h/cfg/server.conf'' = ''/h/cfg''"
    and absdir: "abspath (cwd sample_state) ''/h/cfg'' = ''/h/cfg''"
    and missing: "\<not> os_path_exists sample_state ''/h/cfg''"
    by (simp_all add: os_path_exists_def sample_defs path_defs)
  from config_file_and_directory_modes [OF sample_config_run writes]
  show ?thesis
    unfolding fpath dir absdir using missing by blast
qed

text \<open>
  Claim C7 as stated fails: the directory created for the sample's \<^verbatim>\<open>server.conf\<close> has
  mode \<^verbatim>\<open>0o755\<close>, whose digit for others is 5, read and traverse.
\<close>

theorem config_directory_is_world_readable:
  "fs sample_state ''/h/cfg'' = None
   \<and> fst (generate_config_file ''/h/cfg/server.conf'' sample_server_args Map.empty False sample_state)
     = Inr ()
   \<and> fs (snd (generate_config_file ''/h/cfg/server.conf'' sample_server_args Map.empty False
                sample_state)) ''/h/cfg''
     = Some (Dir (octal [7, 5, 5]))
   \<and> other_bits (octal [7, 5, 5]) = 5"
proof -
  have a: "fs sample_state ''/h/cfg'' = None"
    by (simp add: sample_defs)
  have b: "fs (snd (generate_config_file ''/h/cfg/server.conf'' sample_server_args Map.empty False
                sample_state)) ''/h/cfg''
     = Some (Dir (octal [7, 5, 5]))"
    by (simp add: run_defs sample_defs path_defs)
  from a b sample_first_run mode_digits show ?thesis by simp
qed

end
